theory Spec2Isabelle
  imports Main "HOL-Library.Multiset"
begin

section \<open>Birthday messaging core: delivery client, store, materialiser, processor\<close>

text \<open>
  A shallow embedding of \<^verbatim>\<open>src/services/EmailService.ts\<close> and
  \<^verbatim>\<open>src/services/BirthdayService.ts\<close>. Instants (\<^verbatim>\<open>Date\<close>) are
  milliseconds since the epoch, as integers. Identifiers produced by \<^verbatim>\<open>uuidv4()\<close>
  and by the store are drawn from a counter kept in the world state. Logging is left out:
  it has no effect on the state.
\<close>

type_synonym instant = int
type_synonym uuid = nat

subsection \<open>The outside world: clock, remote delivery API, identifier supply\<close>

text \<open>
  What \<^verbatim>\<open>axios.post\<close> can give back. With \<^verbatim>\<open>validateStatus: () => true\<close> every
  HTTP status resolves (\<open>Resolved\<close>); a transport failure rejects with an error object
  (\<open>Rejected\<close>) that carries an optional \<^verbatim>\<open>code\<close>, a \<^verbatim>\<open>message\<close> and an optional
  \<^verbatim>\<open>response\<close>. \<open>data_json\<close> is \<^verbatim>\<open>JSON.stringify(response.data)\<close> when
  \<^verbatim>\<open>response.data\<close> is truthy.
\<close>

record AxiosResponse =
  resp_status :: int
  statusText :: string
  data_json :: "string option"

record AxiosError =
  response :: "AxiosResponse option"
  code :: "string option"
  err_message :: string

datatype http_outcome = Resolved AxiosResponse | Rejected AxiosError

text \<open>
  The remote API is an oracle: the outcome and the duration (in ms) of the n-th request.
  The world records every request body posted, so that "no HTTP request was made" is
  a statement about \<open>requests\<close>.
\<close>

type_synonym remote = "nat \<Rightarrow> http_outcome \<times> nat"

record World =
  clock :: instant
  requests :: "(string \<times> string) list"
  uuids :: nat

definition axios_post :: "remote \<Rightarrow> string \<Rightarrow> string \<Rightarrow> World \<Rightarrow> http_outcome \<times> World" where
  "axios_post api email_to body w =
     (case api (length (requests w)) of
        (out, d) \<Rightarrow> (out, w\<lparr>clock := clock w + int d, requests := requests w @ [(email_to, body)]\<rparr>))"

definition delay :: "int \<Rightarrow> World \<Rightarrow> World" where
  "delay ms w = w\<lparr>clock := clock w + max 0 ms\<rparr>"

definition uuidv4 :: "World \<Rightarrow> uuid \<times> World" where
  "uuidv4 w = (uuids w, w\<lparr>uuids := Suc (uuids w)\<rparr>)"

subsection \<open>Strings\<close>

fun show_nat :: "nat \<Rightarrow> string" where
  "show_nat n =
     (if n < 10 then [char_of (48 + n)]
      else show_nat (n div 10) @ [char_of (48 + n mod 10)])"

definition show_int :: "int \<Rightarrow> string" where
  "show_int i = (if i < 0 then CHR ''-'' # show_nat (nat (- i)) else show_nat (nat i))"

text \<open>\<^verbatim>\<open>String.prototype.includes\<close>.\<close>

definition str_includes :: "string \<Rightarrow> string \<Rightarrow> bool" where
  "str_includes s sub = list_ex (\<lambda>i. take (length sub) (drop i s) = sub) [0..<Suc (length s)]"

subsection \<open>EmailService\<close>

record EmailMetrics =
  totalAttempts :: nat
  successCount :: nat
  failureCount :: nat
  timeoutCount :: nat
  lastError :: "string option"
  lastSuccess :: "instant option"

text \<open>The constructor's fields read from the environment (\<^verbatim>\<open>parseInt\<close> of each).\<close>

record EmailConfig =
  baseUrl :: string
  timeout :: int
  maxRetries :: int
  retryDelay :: int
  circuitBreakerThreshold :: int
  circuitBreakerResetTime :: int

record EmailService =
  metrics :: EmailMetrics
  circuitBreakerOpenUntil :: "instant option"

definition defaultConfig :: EmailConfig where
  "defaultConfig =
     \<lparr>baseUrl = ''https://email-service.digitalenvision.com.au'', timeout = 10000,
      maxRetries = 3, retryDelay = 2000, circuitBreakerThreshold = 5,
      circuitBreakerResetTime = 60000\<rparr>"

definition newMetrics :: EmailMetrics where
  "newMetrics =
     \<lparr>totalAttempts = 0, successCount = 0, failureCount = 0, timeoutCount = 0,
      lastError = None, lastSuccess = None\<rparr>"

definition newEmailService :: EmailService where
  "newEmailService = \<lparr>metrics = newMetrics, circuitBreakerOpenUntil = None\<rparr>"

definition resetMetrics :: "EmailService \<Rightarrow> EmailService" where
  "resetMetrics s = s\<lparr>metrics := newMetrics\<rparr>"

text \<open>
  \<^verbatim>\<open>isCircuitBreakerOpen\<close>: open while the clock is before
  \<^verbatim>\<open>circuitBreakerOpenUntil\<close>; once the instant is reached the field is cleared.
\<close>

definition isCircuitBreakerOpen :: "instant \<Rightarrow> EmailService \<Rightarrow> bool \<times> EmailService" where
  "isCircuitBreakerOpen now s =
     (case circuitBreakerOpenUntil s of
        None \<Rightarrow> (False, s)
      | Some t \<Rightarrow>
          if now < t then (True, s)
          else (False, s\<lparr>circuitBreakerOpenUntil := None\<rparr>))"

definition openCircuitBreaker :: "EmailConfig \<Rightarrow> instant \<Rightarrow> EmailService \<Rightarrow> EmailService" where
  "openCircuitBreaker cfg now s =
     s\<lparr>circuitBreakerOpenUntil := Some (now + circuitBreakerResetTime cfg)\<rparr>"

text \<open>
  \<^verbatim>\<open>updateMetrics(success, error?)\<close>. The JavaScript test \<^verbatim>\<open>if (error)\<close> is false
  for an absent and for an empty string.
\<close>

definition updateMetrics ::
  "EmailConfig \<Rightarrow> instant \<Rightarrow> bool \<Rightarrow> string option \<Rightarrow> EmailService \<Rightarrow> EmailService" where
  "updateMetrics cfg now ok err s =
     (let m = (metrics s)\<lparr>totalAttempts := totalAttempts (metrics s) + 1\<rparr> in
      if ok then
        s\<lparr>metrics := m\<lparr>successCount := successCount m + 1, lastSuccess := Some now,
                          failureCount := 0\<rparr>\<rparr>
      else
        let m1 = m\<lparr>failureCount := failureCount m + 1\<rparr>;
            m2 = (case err of
                    None \<Rightarrow> m1
                  | Some e \<Rightarrow>
                      if e = [] then m1
                      else
                        let m' = m1\<lparr>lastError := Some e\<rparr> in
                        if str_includes e ''timeout'' \<or> str_includes e ''ETIMEDOUT''
                        then m'\<lparr>timeoutCount := timeoutCount m' + 1\<rparr>
                        else m');
            s1 = s\<lparr>metrics := m2\<rparr>
        in if int (failureCount m2) \<ge> circuitBreakerThreshold cfg
           then openCircuitBreaker cfg now s1
           else s1)"

text \<open>\<^verbatim>\<open>isRetryableError\<close>: both branches of the no-response case return true.\<close>

definition isRetryableError :: "AxiosError \<Rightarrow> bool" where
  "isRetryableError e =
     (case response e of
        None \<Rightarrow>
          (if code e = Some ''ECONNABORTED'' \<or> code e = Some ''ETIMEDOUT'' then True
           else True)
      | Some r \<Rightarrow>
          (let st = resp_status r in st \<ge> 500 \<or> st = 408 \<or> st = 429))"

record SendResult =
  success :: bool
  error :: "string option"

text \<open>
  The catch block's classification of a rejected request into
  \<^verbatim>\<open>(errorType, errorMessage)\<close>.
\<close>

definition categorize :: "EmailConfig \<Rightarrow> AxiosError \<Rightarrow> string \<times> string" where
  "categorize cfg e =
     (if code e = Some ''ECONNABORTED'' \<or> code e = Some ''ETIMEDOUT''
      then (''Timeout'', ''Request timeout after '' @ show_int (timeout cfg) @ ''ms'')
      else if code e = Some ''ECONNREFUSED''
      then (''Connection Refused'', ''Unable to connect to email service'')
      else if code e = Some ''ENOTFOUND''
      then (''DNS Error'', ''Email service host not found'')
      else if response e = None
      then (''Network Error'', err_message e)
      else (''Unknown Error'', err_message e))"

definition finalError :: "EmailConfig \<Rightarrow> AxiosError \<Rightarrow> string" where
  "finalError cfg e =
     (case categorize cfg e of
        (errorType, errorMessage) \<Rightarrow>
          (case Option.bind (response e) data_json of
             Some d \<Rightarrow> errorType @ '': '' @ d
           | None \<Rightarrow> errorType @ '': '' @ errorMessage))"

definition breakerOpenError :: string where
  "breakerOpenError = ''Circuit breaker is open - email service unavailable''"

text \<open>
  \<^verbatim>\<open>sendEmail(email, message, retryCount)\<close>. The recursion is the source's own
  (\<^verbatim>\<open>return this.sendEmail(email, message, retryCount + 1)\<close>); it is bounded by
  \<^verbatim>\<open>maxRetries\<close>.
\<close>

function sendEmail ::
  "EmailConfig \<Rightarrow> remote \<Rightarrow> string \<Rightarrow> string \<Rightarrow> nat \<Rightarrow> EmailService \<Rightarrow> World
     \<Rightarrow> SendResult \<times> EmailService \<times> World" where
  "sendEmail cfg api email_to body retryCount s w =
     (case isCircuitBreakerOpen (clock w) s of
        (True, s1) \<Rightarrow>
          (\<lparr>success = False, error = Some breakerOpenError\<rparr>,
           updateMetrics cfg (clock w) False (Some breakerOpenError) s1, w)
      | (False, s1) \<Rightarrow>
          (case axios_post api email_to body w of
             (Resolved r, w1) \<Rightarrow>
               if 200 \<le> resp_status r \<and> resp_status r < 300
               then (\<lparr>success = True, error = None\<rparr>,
                     updateMetrics cfg (clock w1) True None s1, w1)
               else
                 let errorMsg = ''HTTP '' @ show_int (resp_status r) @ '': '' @ statusText r;
                     mockError = \<lparr>response = Some r, code = Some (show_int (resp_status r)),
                                  err_message = errorMsg\<rparr>
                 in if int retryCount < maxRetries cfg \<and> isRetryableError mockError
                    then sendEmail cfg api email_to body (retryCount + 1) s1
                           (delay (retryDelay cfg * 2 ^ retryCount) w1)
                    else (\<lparr>success = False, error = Some errorMsg\<rparr>,
                          updateMetrics cfg (clock w1) False (Some errorMsg) s1, w1)
           | (Rejected e, w1) \<Rightarrow>
               if int retryCount < maxRetries cfg \<and> isRetryableError e
               then sendEmail cfg api email_to body (retryCount + 1) s1
                      (delay (retryDelay cfg * 2 ^ retryCount) w1)
               else (\<lparr>success = False, error = Some (finalError cfg e)\<rparr>,
                     updateMetrics cfg (clock w1) False (Some (finalError cfg e)) s1, w1)))"
  by pat_completeness auto
termination
  by (relation "measure (\<lambda>(cfg, api, email_to, body, retryCount, s, w).
        nat (maxRetries cfg - int retryCount))") auto

declare sendEmail.simps [simp del]

definition birthdayText :: "string \<Rightarrow> string" where
  "birthdayText fullName = ''Hey, '' @ fullName @ '' it'' @ [CHR 0x27] @ ''s your birthday''"

definition sendBirthdayMessage ::
  "EmailConfig \<Rightarrow> remote \<Rightarrow> string \<Rightarrow> string \<Rightarrow> EmailService \<Rightarrow> World
     \<Rightarrow> SendResult \<times> EmailService \<times> World" where
  "sendBirthdayMessage cfg api email_to fullName s w =
     sendEmail cfg api email_to (birthdayText fullName) 0 s w"

subsection \<open>The store: users and message logs\<close>

datatype MessageStatus = PENDING | SENT | FAILED | RETRY

datatype MessageType = BIRTHDAY | ANNIVERSARY

record User =
  id_user :: uuid
  firstName :: string
  lastName :: string
  email :: string
  birthday :: string
  timezone :: string
  isActive :: bool

record MessageLog =
  id_msg :: uuid
  userId :: uuid
  messageType :: MessageType
  message :: string
  status :: MessageStatus
  scheduledDate :: string
  scheduledAt :: instant
  sentAt :: "instant option"
  retryCount :: int
  errorMessage :: "string option"
  lockId :: "uuid option"
  lockedUntil :: "instant option"
  createdAt :: instant

record DB =
  users :: "User list"
  messageLogs :: "MessageLog list"

text \<open>
  The \<^verbatim>\<open>where\<close> clause shared by the due query and the lock acquisition:
  \<^verbatim>\<open>OR: [{ lockId: null }, { lockedUntil: { lte: now } }]\<close>. A null
  \<^verbatim>\<open>lockedUntil\<close> does not satisfy \<^verbatim>\<open>lte\<close>.
\<close>

definition unlockedAt :: "instant \<Rightarrow> MessageLog \<Rightarrow> bool" where
  "unlockedAt now r =
     (lockId r = None \<or> (case lockedUntil r of None \<Rightarrow> False | Some t \<Rightarrow> t \<le> now))"

text \<open>The \<^verbatim>\<open>findMany\<close> of \<^verbatim>\<open>processPendingMessages\<close>; it has no \<^verbatim>\<open>take\<close>.\<close>

definition isDue :: "instant \<Rightarrow> MessageLog \<Rightarrow> bool" where
  "isDue now r =
     ((status r = PENDING \<or> status r = RETRY) \<and> scheduledAt r \<le> now \<and> unlockedAt now r)"

definition findDue :: "instant \<Rightarrow> DB \<Rightarrow> MessageLog list" where
  "findDue now d = sort_key scheduledAt (filter (isDue now) (messageLogs d))"

text \<open>The \<^verbatim>\<open>findMany\<close> of \<^verbatim>\<open>recoverUnsentMessages\<close>: no lock filter, no order.\<close>

definition findUnsent :: "instant \<Rightarrow> DB \<Rightarrow> MessageLog list" where
  "findUnsent now d =
     filter (\<lambda>r. (status r = PENDING \<or> status r = RETRY) \<and> scheduledAt r < now) (messageLogs d)"

text \<open>
  \<^verbatim>\<open>updateMany({where: {id, OR: [...]}, data: {lockId, lockedUntil}})\<close>: the number of
  rows matched and the store after it.
\<close>

definition acquireLease :: "uuid \<Rightarrow> uuid \<Rightarrow> instant \<Rightarrow> instant \<Rightarrow> DB \<Rightarrow> nat \<times> DB" where
  "acquireLease messageId lk until now d =
     (length (filter (\<lambda>r. id_msg r = messageId \<and> unlockedAt now r) (messageLogs d)),
      d\<lparr>messageLogs :=
          map (\<lambda>r. if id_msg r = messageId \<and> unlockedAt now r
                    then r\<lparr>lockId := Some lk, lockedUntil := Some until\<rparr> else r)
              (messageLogs d)\<rparr>)"

text \<open>\<^verbatim>\<open>findUnique({where: {id}, include: {user: true}})\<close>.\<close>

definition findUniqueWithUser :: "uuid \<Rightarrow> DB \<Rightarrow> (MessageLog \<times> User option) option" where
  "findUniqueWithUser messageId d =
     (case find (\<lambda>r. id_msg r = messageId) (messageLogs d) of
        None \<Rightarrow> None
      | Some r \<Rightarrow> Some (r, find (\<lambda>u. id_user u = userId r) (users d)))"

text \<open>
  \<^verbatim>\<open>update({where: {id}, data})\<close>: Prisma throws when no row has the id
  (\<open>None\<close> here).
\<close>

definition updateById :: "uuid \<Rightarrow> (MessageLog \<Rightarrow> MessageLog) \<Rightarrow> DB \<Rightarrow> DB option" where
  "updateById messageId f d =
     (if list_ex (\<lambda>r. id_msg r = messageId) (messageLogs d)
      then Some (d\<lparr>messageLogs := map (\<lambda>r. if id_msg r = messageId then f r else r) (messageLogs d)\<rparr>)
      else None)"

definition markSent :: "instant \<Rightarrow> MessageLog \<Rightarrow> MessageLog" where
  "markSent now r =
     r\<lparr>status := SENT, sentAt := Some now, lockId := None, lockedUntil := None,
       errorMessage := None\<rparr>"

definition markFailure :: "int \<Rightarrow> int \<Rightarrow> string option \<Rightarrow> MessageLog \<Rightarrow> MessageLog" where
  "markFailure maxR newRetryCount err r =
     r\<lparr>status := (if newRetryCount \<ge> maxR then FAILED else RETRY),
       retryCount := newRetryCount,
       errorMessage := Some (case err of None \<Rightarrow> ''Unknown error''
                                     | Some e \<Rightarrow> if e = [] then ''Unknown error'' else e),
       lockId := None, lockedUntil := None\<rparr>"

text \<open>
  The catch block's \<^verbatim>\<open>updateMany({where: {id: messageId, lockId}, data: {lockId: null,
  lockedUntil: null}})\<close>.
\<close>

definition releaseLease :: "uuid \<Rightarrow> uuid \<Rightarrow> DB \<Rightarrow> DB" where
  "releaseLease messageId lk d =
     d\<lparr>messageLogs :=
         map (\<lambda>r. if id_msg r = messageId \<and> lockId r = Some lk
                   then r\<lparr>lockId := None, lockedUntil := None\<rparr> else r)
             (messageLogs d)\<rparr>"



subsection \<open>BirthdayService: the processor\<close>

text \<open>
  The store calls of \<^verbatim>\<open>processMessage\<close> that can throw (connection loss and the
  like); \<open>dbFault\<close> says, per message, which of them do. A call that throws leaves the
  store as it was.
\<close>

datatype dbop = AcquireLease | ReRead | MarkSent | MarkFailure | ReleaseLease

record Env =
  cfg :: EmailConfig
  api :: remote
  dbFault :: "uuid \<Rightarrow> dbop \<Rightarrow> bool"

record Sys =
  db :: DB
  svc :: EmailService
  world :: World

text \<open>How a block ends: normally, or by throwing; either way with the state reached.\<close>

datatype 'a attempt = Done 'a | Threw 'a

definition lockDuration :: int where
  "lockDuration = 5 * 60 * 1000"

text \<open>The \<^verbatim>\<open>try\<close> block of \<^verbatim>\<open>processMessage\<close>.\<close>

definition processBody :: "Env \<Rightarrow> uuid \<Rightarrow> uuid \<Rightarrow> instant \<Rightarrow> Sys \<Rightarrow> Sys attempt" where
  "processBody env messageId lk until st =
     (if dbFault env messageId AcquireLease then Threw st
      else
        (case acquireLease messageId lk until (clock (world st)) (db st) of
          (updated_count, d1) \<Rightarrow>
            (if updated_count = 0 then Done st
             else
               (let st1 = st\<lparr>db := d1\<rparr> in
                if dbFault env messageId ReRead then Threw st1
                else
                  (case findUniqueWithUser messageId d1 of
                     None \<Rightarrow> Done st1
                   | Some (messageLog, None) \<Rightarrow> Done st1
                   | Some (messageLog, Some user) \<Rightarrow>
                      (case sendBirthdayMessage (cfg env) (api env) (email user)
                              (firstName user @ '' '' @ lastName user) (svc st1) (world st1) of
                         (result, s', w') \<Rightarrow>
                           (let st2 = st1\<lparr>svc := s', world := w'\<rparr> in
                            if success result then
                              (if dbFault env messageId MarkSent then Threw st2
                               else
                                 (case updateById messageId (markSent (clock w')) (db st2) of
                                    None \<Rightarrow> Threw st2
                                  | Some d' \<Rightarrow> Done (st2\<lparr>db := d'\<rparr>)))
                            else
                              (let newRetryCount = retryCount messageLog + 1 in
                               if dbFault env messageId MarkFailure then Threw st2
                               else
                                 (case updateById messageId
                                         (markFailure (maxRetries (cfg env)) newRetryCount
                                            (error result))
                                         (db st2) of
                                    None \<Rightarrow> Threw st2
                                  | Some d' \<Rightarrow> Done (st2\<lparr>db := d'\<rparr>))))))))))"


text \<open>
  \<^verbatim>\<open>processMessage\<close>: a fresh lock token, the \<^verbatim>\<open>try\<close> block, and the catch
  block's release. The release is itself a store call outside the \<^verbatim>\<open>try\<close>: when it
  throws, the exception reaches the caller.
\<close>

definition processMessage :: "Env \<Rightarrow> uuid \<Rightarrow> Sys \<Rightarrow> Sys attempt" where
  "processMessage env messageId st =
     (case uuidv4 (world st) of
        (lk, w0) \<Rightarrow>
          (case processBody env messageId lk (clock w0 + lockDuration) (st\<lparr>world := w0\<rparr>) of
             Done st' \<Rightarrow> Done st'
           | Threw st' \<Rightarrow>
               if dbFault env messageId ReleaseLease then Threw st'
               else Done (st'\<lparr>db := releaseLease messageId lk (db st')\<rparr>)))"

text \<open>The \<^verbatim>\<open>for\<close> loop over the selected ids; an exception leaves the loop.\<close>

fun processEach :: "Env \<Rightarrow> uuid list \<Rightarrow> Sys \<Rightarrow> Sys attempt" where
  "processEach env [] st = Done st"
| "processEach env (i # ids) st =
     (case processMessage env i st of
        Done st' \<Rightarrow> processEach env ids st'
      | Threw st' \<Rightarrow> Threw st')"

definition processPendingMessages :: "Env \<Rightarrow> Sys \<Rightarrow> Sys attempt" where
  "processPendingMessages env st =
     processEach env (map id_msg (findDue (clock (world st)) (db st))) st"

definition recoverUnsentMessages :: "Env \<Rightarrow> Sys \<Rightarrow> Sys attempt" where
  "recoverUnsentMessages env st =
     processEach env (map id_msg (findUnsent (clock (world st)) (db st))) st"

subsection \<open>BirthdayService: the materialiser\<close>

text \<open>
  The date library (moment-timezone) is not part of the repository; its operations are
  parameters. \<open>'m\<close> is the type of moment objects. \<open>get_month\<close> and \<open>get_date\<close> give
  \<open>None\<close> for the \<^verbatim>\<open>NaN\<close> of an invalid moment.
\<close>

record 'm MomentLib =
  tz_now :: "string \<Rightarrow> instant \<Rightarrow> 'm"
  tz_parse :: "string \<Rightarrow> string \<Rightarrow> 'm"
  parse_ymd :: "string \<Rightarrow> 'm"
  get_month :: "'m \<Rightarrow> int option"
  get_date :: "'m \<Rightarrow> int option"
  format_ymd :: "'m \<Rightarrow> string"
  set_hour :: "int \<Rightarrow> 'm \<Rightarrow> 'm"
  set_minute :: "int \<Rightarrow> 'm \<Rightarrow> 'm"
  set_second :: "int \<Rightarrow> 'm \<Rightarrow> 'm"
  set_millisecond :: "int \<Rightarrow> 'm \<Rightarrow> 'm"
  toDate :: "'m \<Rightarrow> instant"

text \<open>
  \<^verbatim>\<open>BIRTHDAY_MESSAGE_HOUR\<close> and \<^verbatim>\<open>BIRTHDAY_MESSAGE_MINUTE\<close>: \<open>None\<close> when the
  variable is unset.
\<close>

record SendAtConfig =
  messageHour :: "int option"
  messageMinute :: "int option"

text \<open>JavaScript's \<^verbatim>\<open>===\<close> on numbers: \<^verbatim>\<open>NaN\<close> equals nothing.\<close>

definition js_eq :: "int option \<Rightarrow> int option \<Rightarrow> bool" where
  "js_eq a b = (case (a, b) of (Some x, Some y) \<Rightarrow> x = y | _ \<Rightarrow> False)"

definition isBirthdayToday :: "'m MomentLib \<Rightarrow> instant \<Rightarrow> string \<Rightarrow> string \<Rightarrow> bool" where
  "isBirthdayToday lib now bday tz =
     (let n = tz_now lib tz now; birthDate = parse_ymd lib bday in
      js_eq (get_month lib n) (get_month lib birthDate) \<and>
      js_eq (get_date lib n) (get_date lib birthDate))"

definition getScheduledTime :: "'m MomentLib \<Rightarrow> SendAtConfig \<Rightarrow> string \<Rightarrow> string \<Rightarrow> instant" where
  "getScheduledTime lib sc tz targetDate =
     (let hour = (case messageHour sc of None \<Rightarrow> 9 | Some h \<Rightarrow> h);
          minute = (case messageMinute sc of None \<Rightarrow> 0 | Some m \<Rightarrow> m)
      in toDate lib
           (set_millisecond lib 0
             (set_second lib 0
               (set_minute lib minute
                 (set_hour lib hour (tz_parse lib targetDate tz))))))"

text \<open>
  \<^verbatim>\<open>findUnique({where: {userId_messageType_scheduledDate: ...}})\<close> and
  \<^verbatim>\<open>create\<close>. The unique index
  \<^verbatim>\<open>message_logs_user_id_message_type_scheduled_date_key\<close> makes \<^verbatim>\<open>create\<close>
  throw (\<open>None\<close>) when a row with the key exists. The columns not given take the
  defaults of the migration.
\<close>

definition hasKey :: "uuid \<Rightarrow> MessageType \<Rightarrow> string \<Rightarrow> MessageLog \<Rightarrow> bool" where
  "hasKey uid ty day r = (userId r = uid \<and> messageType r = ty \<and> scheduledDate r = day)"

definition findByKey :: "uuid \<Rightarrow> MessageType \<Rightarrow> string \<Rightarrow> DB \<Rightarrow> MessageLog option" where
  "findByKey uid ty day d = find (hasKey uid ty day) (messageLogs d)"

definition createMessageLog ::
  "uuid \<Rightarrow> MessageType \<Rightarrow> string \<Rightarrow> string \<Rightarrow> instant \<Rightarrow> Sys \<Rightarrow> Sys option" where
  "createMessageLog uid ty body day at st =
     (if list_ex (hasKey uid ty day) (messageLogs (db st)) then None
      else
        (case uuidv4 (world st) of
           (new_id, w') \<Rightarrow>
             Some (st\<lparr>world := w',
                      db := (db st)\<lparr>messageLogs := messageLogs (db st) @
                        [\<lparr>id_msg = new_id, userId = uid, messageType = ty, message = body,
                          status = PENDING, scheduledDate = day, scheduledAt = at,
                          sentAt = None, retryCount = 0, errorMessage = None,
                          lockId = None, lockedUntil = None,
                          createdAt = clock (world st)\<rparr>]\<rparr>\<rparr>)))"

definition ensureBirthdayMessage :: "'m MomentLib \<Rightarrow> SendAtConfig \<Rightarrow> User \<Rightarrow> Sys \<Rightarrow> Sys" where
  "ensureBirthdayMessage lib sc user st =
     (let today = format_ymd lib (tz_now lib (timezone user) (clock (world st)));
          at = getScheduledTime lib sc (timezone user) today
      in case findByKey (id_user user) BIRTHDAY today (db st) of
           Some existingMessage \<Rightarrow> st
         | None \<Rightarrow>
             (let fullName = firstName user @ '' '' @ lastName user;
                  body = ''Hey, '' @ fullName @ '' it'' @ [CHR 0x27] @ ''s your birthday''
              in case createMessageLog (id_user user) BIRTHDAY body today at st of
                   None \<Rightarrow> st
                 | Some st' \<Rightarrow> st'))"

fun ensureEach :: "'m MomentLib \<Rightarrow> SendAtConfig \<Rightarrow> User list \<Rightarrow> Sys \<Rightarrow> Sys" where
  "ensureEach lib sc [] st = st"
| "ensureEach lib sc (u # us) st =
     ensureEach lib sc us
       (if isBirthdayToday lib (clock (world st)) (birthday u) (timezone u)
        then ensureBirthdayMessage lib sc u st else st)"

definition createBirthdayMessages :: "'m MomentLib \<Rightarrow> SendAtConfig \<Rightarrow> Sys \<Rightarrow> Sys" where
  "createBirthdayMessages lib sc st =
     ensureEach lib sc (filter isActive (users (db st))) st"

text \<open>A scheduler tick at a given clock reading: time passes, then the job runs.\<close>

definition at_time :: "instant \<Rightarrow> Sys \<Rightarrow> Sys" where
  "at_time t st = st\<lparr>world := (world st)\<lparr>clock := max t (clock (world st))\<rparr>\<rparr>"

subsection \<open>Vocabulary of the properties\<close>

text \<open>A request outcome that \<^verbatim>\<open>sendEmail\<close> takes as delivered: a 2xx response.\<close>

definition succeeds :: "http_outcome \<Rightarrow> bool" where
  "succeeds out = (case out of Resolved r \<Rightarrow> 200 \<le> resp_status r \<and> resp_status r < 300
                   | Rejected e \<Rightarrow> False)"

text \<open>The service once \<^verbatim>\<open>isCircuitBreakerOpen\<close> has let a call through.\<close>

definition half_open :: "EmailService \<Rightarrow> EmailService" where
  "half_open s = s\<lparr>circuitBreakerOpenUntil := None\<rparr>"

text \<open>
  The identity of a message log under the unique index, the civil day as the materialiser
  sees it (the formatted date, the month and the day of the month of
  \<^verbatim>\<open>moment.tz(timezone)\<close> at an instant), and a run of the materialiser at a given
  clock reading. The store calls take no time in this model, so one run reads one instant.
\<close>

definition msg_key :: "MessageLog \<Rightarrow> uuid \<times> MessageType \<times> string" where
  "msg_key r = (userId r, messageType r, scheduledDate r)"

definition civilDay :: "'m MomentLib \<Rightarrow> string \<Rightarrow> instant \<Rightarrow> string \<times> int option \<times> int option" where
  "civilDay lib tz t =
     (format_ymd lib (tz_now lib tz t), get_month lib (tz_now lib tz t), get_date lib (tz_now lib tz t))"

definition materialiseAt :: "'m MomentLib \<Rightarrow> SendAtConfig \<Rightarrow> instant \<Rightarrow> Sys \<Rightarrow> Sys" where
  "materialiseAt lib sc t st =
     createBirthdayMessages lib sc (st\<lparr>world := (world st)\<lparr>clock := t\<rparr>\<rparr>)"

definition todayOf :: "'m MomentLib \<Rightarrow> User \<Rightarrow> instant \<Rightarrow> string" where
  "todayOf lib u t = format_ymd lib (tz_now lib (timezone u) t)"

subsection \<open>Concrete inputs\<close>

definition john :: User where
  "john = \<lparr>id_user = 7, firstName = ''John'', lastName = ''Doe'', email = ''john@example.com'',
            birthday = ''1990-05-15'', timezone = ''America/New_York'', isActive = True\<rparr>"

text \<open>The record of the happy-path scenario: due at 13:00Z on 2026-05-15.\<close>

definition johns_log :: MessageLog where
  "johns_log =
     \<lparr>id_msg = 1, userId = 7, messageType = BIRTHDAY,
      message = ''Hey, John Doe it'' @ [CHR 0x27] @ ''s your birthday'', status = PENDING,
      scheduledDate = ''2026-05-15'', scheduledAt = 1778850000000, sentAt = None,
      retryCount = 0, errorMessage = None, lockId = None, lockedUntil = None,
      createdAt = 1778824800000\<rparr>"

definition sys_of :: "User list \<Rightarrow> MessageLog list \<Rightarrow> instant \<Rightarrow> Sys" where
  "sys_of us ls now =
     \<lparr>db = \<lparr>users = us, messageLogs = ls\<rparr>, svc = newEmailService,
      world = \<lparr>clock = now, requests = [], uuids = 100\<rparr>\<rparr>"

definition api_always :: "int \<Rightarrow> string \<Rightarrow> remote" where
  "api_always st txt = (\<lambda>n. (Resolved \<lparr>resp_status = st, statusText = txt, data_json = None\<rparr>, 20))"

definition env_of :: "remote \<Rightarrow> (uuid \<Rightarrow> dbop \<Rightarrow> bool) \<Rightarrow> Env" where
  "env_of a f = \<lparr>cfg = defaultConfig, api = a, dbFault = f\<rparr>"

definition no_fault :: "uuid \<Rightarrow> dbop \<Rightarrow> bool" where
  "no_fault i x = False"

definition happy_time :: instant where
  "happy_time = 1778850005000"

text \<open>The state and outcome an \<open>attempt\<close> carries.\<close>

fun state_of :: "'a attempt \<Rightarrow> 'a" where
  "state_of (Done s) = s"
| "state_of (Threw s) = s"

fun threw :: "'a attempt \<Rightarrow> bool" where
  "threw (Done s) = False"
| "threw (Threw s) = True"

definition mark_sent_fails :: "uuid \<Rightarrow> dbop \<Rightarrow> bool" where
  "mark_sent_fails i x = (x = MarkSent)"

definition acquire_fails :: "uuid \<Rightarrow> dbop \<Rightarrow> bool" where
  "acquire_fails i x = (x = AcquireLease)"

text \<open>
  John's records of two years, the later one stored first: due at 13:00Z on 2026-05-15
  and on 2025-05-15. Ids and keys \<open>(userId, messageType, scheduledDate)\<close> differ, and
  the user is in the store.
\<close>

definition log_on :: "uuid \<Rightarrow> string \<Rightarrow> instant \<Rightarrow> MessageLog" where
  "log_on i day at =
     johns_log\<lparr>id_msg := i, scheduledDate := day, scheduledAt := at,
               createdAt := at - 25200000\<rparr>"

definition two_due :: DB where
  "two_due =
     \<lparr>users = [john],
      messageLogs = [log_on 1 ''2026-05-15'' 1778850000000,
                     log_on 2 ''2025-05-15'' 1747314000000]\<rparr>"

definition strict_cfg :: EmailConfig where
  "strict_cfg = defaultConfig\<lparr>circuitBreakerThreshold := 1\<rparr>"

definition world_at :: "instant \<Rightarrow> World \<Rightarrow> World" where
  "world_at t w = w\<lparr>clock := max t (clock w)\<rparr>"

text \<open>Three calls of \<^verbatim>\<open>sendEmail\<close> at the given clock readings, from a new service.\<close>

definition three_calls ::
  "EmailConfig \<Rightarrow> remote \<Rightarrow> instant \<Rightarrow> instant \<Rightarrow> instant
     \<Rightarrow> (SendResult \<times> EmailService \<times> World) \<times> (SendResult \<times> EmailService \<times> World)
        \<times> (SendResult \<times> EmailService \<times> World)" where
  "three_calls c a t1 t2 t3 =
     (case sendEmail c a ''a@b.c'' ''hi'' 0 newEmailService \<lparr>clock = t1, requests = [], uuids = 0\<rparr> of
        (r1, s1, w1) \<Rightarrow>
          (case sendEmail c a ''a@b.c'' ''hi'' 0 s1 (world_at t2 w1) of
             (r2, s2, w2) \<Rightarrow>
               ((r1, s1, w1), (r2, s2, w2), sendEmail c a ''a@b.c'' ''hi'' 0 s2 (world_at t3 w2))))"

definition test_cfg :: EmailConfig where
  "test_cfg = defaultConfig\<lparr>circuitBreakerThreshold := 3, circuitBreakerResetTime := 1000\<rparr>"

definition tripped :: EmailService where
  "tripped = \<lparr>metrics = newMetrics\<lparr>totalAttempts := 3, failureCount := 3\<rparr>,
              circuitBreakerOpenUntil = Some 5000\<rparr>"

definition clock_at :: "instant \<Rightarrow> World" where
  "clock_at t = \<lparr>clock = t, requests = [], uuids = 0\<rparr>"

text \<open>Successive scheduler ticks of the processor at the given clock readings.\<close>

fun run_ticks :: "Env \<Rightarrow> instant list \<Rightarrow> Sys \<Rightarrow> Sys" where
  "run_ticks env [] st = st"
| "run_ticks env (t # ts) st =
     run_ticks env ts (state_of (processPendingMessages env (at_time t st)))"

definition status_counts :: "Sys \<Rightarrow> (MessageStatus \<times> int) list" where
  "status_counts st = map (\<lambda>x. (status x, retryCount x)) (messageLogs (db st))"

definition env_500 :: Env where
  "env_500 = env_of (api_always 500 ''Internal Server Error'') no_fault"

definition env_ok :: Env where
  "env_ok = env_of (api_always 200 ''OK'') no_fault"

definition renamed :: User where
  "renamed = john\<lparr>firstName := ''Jonathan''\<rparr>"

text \<open>A record already Sent, with its lock cleared, as \<^verbatim>\<open>processMessage\<close> finds it.\<close>

definition sent_log :: MessageLog where
  "sent_log = johns_log\<lparr>status := SENT, sentAt := Some (happy_time + 20)\<rparr>"

text \<open>
  A stand-in for the date library in concrete runs: every clock reading falls on the civil
  day \<open>today\<close> in every zone, and every scheduled time is \<open>at\<close>. Moment objects are
  \<^verbatim>\<open>YYYY-MM-DD\<close> strings; months count from 0 as in moment.
\<close>

definition two_digits :: "string \<Rightarrow> int option" where
  "two_digits s =
     (case s of
        [a, b] \<Rightarrow>
          (let x = (of_char a :: nat); y = (of_char b :: nat) in
           if 48 \<le> x \<and> x \<le> 57 \<and> 48 \<le> y \<and> y \<le> 57
           then Some (10 * (int x - 48) + (int y - 48))
           else None)
      | _ \<Rightarrow> None)"

definition fixed_day_lib :: "string \<Rightarrow> instant \<Rightarrow> string MomentLib" where
  "fixed_day_lib today at =
     \<lparr>tz_now = (\<lambda>tz t. today), tz_parse = (\<lambda>d tz. d), parse_ymd = (\<lambda>s. s),
      get_month = (\<lambda>m. map_option (\<lambda>x. x - 1) (two_digits (take 2 (drop 5 m)))),
      get_date = (\<lambda>m. two_digits (take 2 (drop 8 m))),
      format_ymd = (\<lambda>m. m),
      set_hour = (\<lambda>h m. m), set_minute = (\<lambda>h m. m), set_second = (\<lambda>h m. m),
      set_millisecond = (\<lambda>h m. m), toDate = (\<lambda>m. at)\<rparr>"

definition may_15 :: "string MomentLib" where
  "may_15 = fixed_day_lib ''2026-05-15'' 1778850000000"

definition default_send_at :: SendAtConfig where
  "default_send_at = \<lparr>messageHour = None, messageMinute = None\<rparr>"

definition jane :: User where
  "jane = \<lparr>id_user = 8, firstName = ''Jane'', lastName = ''Roe'', email = ''jane@example.com'',
            birthday = ''1985-12-01'', timezone = ''Asia/Jakarta'', isActive = True\<rparr>"

definition early :: instant where
  "early = 1778824800000"

section \<open>Properties\<close>

subsection \<open>The failure classifier\<close>

text \<open>
  Claim C5. \<^verbatim>\<open>isRetryableError\<close> answers retryable for every failure without an HTTP
  response (timeout, connection refused, DNS, any other transport error), and for a
  failure with a response exactly when the status is at least 500, or 408, or 429: every
  other status, so every other 4xx and 400 and 404 among them, is terminal.
\<close>

theorem isRetryableError_classifier:
  "(response e = None \<longrightarrow> isRetryableError e) \<and>
   (\<forall>r. response e = Some r \<longrightarrow>
      (isRetryableError e \<longleftrightarrow>
         (resp_status r \<ge> 500 \<or> resp_status r = 408 \<or> resp_status r = 429)))"
  by (auto simp: isRetryableError_def Let_def split: option.splits)

theorem isRetryableError_classifier_witness:
  "isRetryableError \<lparr>response = None, code = Some ''ETIMEDOUT'', err_message = ''Timeout''\<rparr> \<and>
   isRetryableError \<lparr>response = None, code = Some ''ECONNREFUSED'', err_message = ''Connection refused''\<rparr> \<and>
   isRetryableError \<lparr>response = None, code = Some ''ENOTFOUND'', err_message = ''getaddrinfo''\<rparr> \<and>
   isRetryableError \<lparr>response = Some \<lparr>resp_status = 503, statusText = ''Service Unavailable'', data_json = None\<rparr>,
       code = Some ''503'', err_message = ''HTTP 503: Service Unavailable''\<rparr> \<and>
   isRetryableError \<lparr>response = Some \<lparr>resp_status = 408, statusText = ''Request Timeout'', data_json = None\<rparr>,
       code = Some ''408'', err_message = ''HTTP 408: Request Timeout''\<rparr> \<and>
   isRetryableError \<lparr>response = Some \<lparr>resp_status = 429, statusText = ''Too Many Requests'', data_json = None\<rparr>,
       code = Some ''429'', err_message = ''HTTP 429: Too Many Requests''\<rparr> \<and>
   \<not> isRetryableError \<lparr>response = Some \<lparr>resp_status = 400, statusText = ''Bad Request'', data_json = None\<rparr>,
       code = Some ''400'', err_message = ''HTTP 400: Bad Request''\<rparr> \<and>
   \<not> isRetryableError \<lparr>response = Some \<lparr>resp_status = 404, statusText = ''Not Found'', data_json = None\<rparr>,
       code = Some ''404'', err_message = ''HTTP 404: Not Found''\<rparr>"
  using isRetryableError_classifier
          [of "\<lparr>response = None, code = Some ''ETIMEDOUT'', err_message = ''Timeout''\<rparr>"]
        isRetryableError_classifier
          [of "\<lparr>response = None, code = Some ''ECONNREFUSED'', err_message = ''Connection refused''\<rparr>"]
        isRetryableError_classifier
          [of "\<lparr>response = None, code = Some ''ENOTFOUND'', err_message = ''getaddrinfo''\<rparr>"]
        isRetryableError_classifier
          [of "\<lparr>response = Some \<lparr>resp_status = 503, statusText = ''Service Unavailable'', data_json = None\<rparr>,
       code = Some ''503'', err_message = ''HTTP 503: Service Unavailable''\<rparr>"]
        isRetryableError_classifier
          [of "\<lparr>response = Some \<lparr>resp_status = 408, statusText = ''Request Timeout'', data_json = None\<rparr>,
       code = Some ''408'', err_message = ''HTTP 408: Request Timeout''\<rparr>"]
        isRetryableError_classifier
          [of "\<lparr>response = Some \<lparr>resp_status = 429, statusText = ''Too Many Requests'', data_json = None\<rparr>,
       code = Some ''429'', err_message = ''HTTP 429: Too Many Requests''\<rparr>"]
        isRetryableError_classifier
          [of "\<lparr>response = Some \<lparr>resp_status = 400, statusText = ''Bad Request'', data_json = None\<rparr>,
       code = Some ''400'', err_message = ''HTTP 400: Bad Request''\<rparr>"]
        isRetryableError_classifier
          [of "\<lparr>response = Some \<lparr>resp_status = 404, statusText = ''Not Found'', data_json = None\<rparr>,
       code = Some ''404'', err_message = ''HTTP 404: Not Found''\<rparr>"]
  by simp

subsection \<open>The delivery client, one invocation\<close>

text \<open>One attempt of \<^verbatim>\<open>sendEmail\<close>, branch by branch.\<close>

lemma sendEmail_blocked:
  assumes "circuitBreakerOpenUntil s = Some t" "clock w < t"
  shows "sendEmail c a e b k s w =
     (\<lparr>success = False, error = Some breakerOpenError\<rparr>,
      updateMetrics c (clock w) False (Some breakerOpenError) s, w)"
  using assms by (subst sendEmail.simps [of c a e b k s w]) (simp add: isCircuitBreakerOpen_def)

lemma breaker_closed:
  assumes "\<forall>t. circuitBreakerOpenUntil s = Some t \<longrightarrow> t \<le> clock w"
  shows "isCircuitBreakerOpen (clock w) s = (False, half_open s)"
  using assms by (cases "circuitBreakerOpenUntil s") (simp_all add: isCircuitBreakerOpen_def half_open_def)

lemma sendEmail_ok:
  assumes "\<forall>t. circuitBreakerOpenUntil s = Some t \<longrightarrow> t \<le> clock w"
    and "axios_post a e b w = (Resolved r, w1)" "200 \<le> resp_status r" "resp_status r < 300"
  shows "sendEmail c a e b k s w =
     (\<lparr>success = True, error = None\<rparr>, updateMetrics c (clock w1) True None (half_open s), w1)"
  using assms(2-) breaker_closed [OF assms(1)] by (subst sendEmail.simps [of c a e b k s w]) simp

lemma sendEmail_http_retry:
  assumes "\<forall>t. circuitBreakerOpenUntil s = Some t \<longrightarrow> t \<le> clock w"
    and "axios_post a e b w = (Resolved r, w1)" "\<not> (200 \<le> resp_status r \<and> resp_status r < 300)"
    and "int k < maxRetries c" "resp_status r \<ge> 500 \<or> resp_status r = 408 \<or> resp_status r = 429"
  shows "sendEmail c a e b k s w =
     sendEmail c a e b (k + 1) (half_open s) (delay (retryDelay c * 2 ^ k) w1)"
  using assms(2-) breaker_closed [OF assms(1)]
  by (subst sendEmail.simps [of c a e b k s w]) (auto simp: isRetryableError_def Let_def)

lemma sendEmail_http_fail:
  assumes "\<forall>t. circuitBreakerOpenUntil s = Some t \<longrightarrow> t \<le> clock w"
    and "axios_post a e b w = (Resolved r, w1)" "\<not> (200 \<le> resp_status r \<and> resp_status r < 300)"
    and "\<not> (int k < maxRetries c \<and> (resp_status r \<ge> 500 \<or> resp_status r = 408 \<or> resp_status r = 429))"
  shows "sendEmail c a e b k s w =
     (\<lparr>success = False, error = Some (''HTTP '' @ show_int (resp_status r) @ '': '' @ statusText r)\<rparr>,
      updateMetrics c (clock w1) False
        (Some (''HTTP '' @ show_int (resp_status r) @ '': '' @ statusText r)) (half_open s), w1)"
  using assms(2-) breaker_closed [OF assms(1)]
  by (subst sendEmail.simps [of c a e b k s w]) (auto simp: isRetryableError_def Let_def)

lemma sendEmail_rejected_retry:
  assumes "\<forall>t. circuitBreakerOpenUntil s = Some t \<longrightarrow> t \<le> clock w"
    and "axios_post a e b w = (Rejected x, w1)"
    and "int k < maxRetries c" "isRetryableError x"
  shows "sendEmail c a e b k s w =
     sendEmail c a e b (k + 1) (half_open s) (delay (retryDelay c * 2 ^ k) w1)"
  using assms(2-) breaker_closed [OF assms(1)]
  by (subst sendEmail.simps [of c a e b k s w]) auto

lemma sendEmail_rejected_fail:
  assumes "\<forall>t. circuitBreakerOpenUntil s = Some t \<longrightarrow> t \<le> clock w"
    and "axios_post a e b w = (Rejected x, w1)"
    and "\<not> (int k < maxRetries c \<and> isRetryableError x)"
  shows "sendEmail c a e b k s w =
     (\<lparr>success = False, error = Some (finalError c x)\<rparr>,
      updateMetrics c (clock w1) False (Some (finalError c x)) (half_open s), w1)"
  using assms(2-) breaker_closed [OF assms(1)]
  by (subst sendEmail.simps [of c a e b k s w]) auto


lemma half_open_idem: "half_open (half_open s) = half_open s"
  and half_open_closed: "circuitBreakerOpenUntil (half_open s) = None"
  by (simp_all add: half_open_def)

lemma sendEmail_step:
  assumes closed: "\<forall>t. circuitBreakerOpenUntil s = Some t \<longrightarrow> t \<le> clock w"
    and post: "axios_post a e b w = (out, w1)"
  shows "(\<exists>res. sendEmail c a e b k s w =
             (res, updateMetrics c (clock w1) (success res) (error res) (half_open s), w1) \<and>
           (success res \<longleftrightarrow> succeeds out) \<and> (success res \<longrightarrow> error res = None)) \<or>
         (int k < maxRetries c \<and> \<not> succeeds out \<and>
          sendEmail c a e b k s w =
            sendEmail c a e b (k + 1) (half_open s) (delay (retryDelay c * 2 ^ k) w1))"
proof (cases out)
  case (Resolved r)
  show ?thesis
  proof (cases "200 \<le> resp_status r \<and> resp_status r < 300")
    case True
    then have "sendEmail c a e b k s w =
        (\<lparr>success = True, error = None\<rparr>, updateMetrics c (clock w1) True None (half_open s), w1)"
      using sendEmail_ok [OF closed] post Resolved by simp
    then show ?thesis
      using True Resolved by (simp add: succeeds_def)
  next
    case nok: False
    show ?thesis
    proof (cases "int k < maxRetries c \<and>
        (resp_status r \<ge> 500 \<or> resp_status r = 408 \<or> resp_status r = 429)")
      case True
      then have "sendEmail c a e b k s w =
          sendEmail c a e b (k + 1) (half_open s) (delay (retryDelay c * 2 ^ k) w1)"
        using sendEmail_http_retry [OF closed _ nok] post Resolved by simp
      then show ?thesis
        using True nok Resolved by (simp add: succeeds_def)
    next
      case False
      have "sendEmail c a e b k s w =
        (\<lparr>success = False,
          error = Some (''HTTP '' @ show_int (resp_status r) @ '': '' @ statusText r)\<rparr>,
         updateMetrics c (clock w1) False
           (Some (''HTTP '' @ show_int (resp_status r) @ '': '' @ statusText r)) (half_open s), w1)"
        using sendEmail_http_fail [OF closed _ nok False] post Resolved by simp
      then show ?thesis
        using nok Resolved by (simp add: succeeds_def)
    qed
  qed
next
  case (Rejected x)
  show ?thesis
  proof (cases "int k < maxRetries c \<and> isRetryableError x")
    case True
    then have "sendEmail c a e b k s w =
        sendEmail c a e b (k + 1) (half_open s) (delay (retryDelay c * 2 ^ k) w1)"
      using sendEmail_rejected_retry [OF closed] post Rejected by simp
    then show ?thesis
      using True Rejected by (simp add: succeeds_def)
  next
    case False
    have "sendEmail c a e b k s w =
       (\<lparr>success = False, error = Some (finalError c x)\<rparr>,
        updateMetrics c (clock w1) False (Some (finalError c x)) (half_open s), w1)"
      using sendEmail_rejected_fail [OF closed _ False] post Rejected by simp
    then show ?thesis
      using Rejected by (simp add: succeeds_def)
  qed
qed

text \<open>
  The shape of every invocation that gets past the breaker: at least one request, all with
  the same body, and exactly one \<open>updateMetrics\<close>, on the outcome of the last request.
\<close>

lemma sendEmail_attempted:
  assumes "\<forall>t. circuitBreakerOpenUntil s = Some t \<longrightarrow> t \<le> clock w"
  shows "\<exists>res w' n. sendEmail c a e b k s w =
             (res, updateMetrics c (clock w') (success res) (error res) (half_open s), w') \<and>
           requests w' = requests w @ replicate (Suc n) (e, b) \<and>
           clock w \<le> clock w' \<and> uuids w' = uuids w \<and>
           (success res \<longleftrightarrow> succeeds (fst (a (length (requests w') - 1)))) \<and>
           (success res \<longrightarrow> error res = None)"
  using assms
proof (induction "nat (maxRetries c - int k)" arbitrary: k s w rule: less_induct)
  case less
  obtain out d where ad: "a (length (requests w)) = (out, d)"
    by (cases "a (length (requests w))")
  define w1 where "w1 = w\<lparr>clock := clock w + int d, requests := requests w @ [(e, b)]\<rparr>"
  have post: "axios_post a e b w = (out, w1)"
    by (simp add: axios_post_def ad w1_def)
  from sendEmail_step [OF less.prems post, of c k]
  show ?case
  proof (elim disjE exE conjE)
    fix res
    assume r: "sendEmail c a e b k s w =
             (res, updateMetrics c (clock w1) (success res) (error res) (half_open s), w1)"
      and ok: "success res = succeeds out" "success res \<longrightarrow> error res = None"
    have "requests w1 = requests w @ replicate (Suc 0) (e, b)"
      by (simp add: w1_def)
    moreover have "clock w \<le> clock w1" "uuids w1 = uuids w"
      by (simp_all add: w1_def)
    moreover have "success res \<longleftrightarrow> succeeds (fst (a (length (requests w1) - 1)))"
      using ok ad by (simp add: w1_def)
    ultimately show ?thesis
      using r ok(2) by blast
  next
    assume lt: "int k < maxRetries c"
      and rec: "sendEmail c a e b k s w =
            sendEmail c a e b (k + 1) (half_open s) (delay (retryDelay c * 2 ^ k) w1)"
    define w2 where "w2 = delay (retryDelay c * 2 ^ k) w1"
    have m: "nat (maxRetries c - int (k + 1)) < nat (maxRetries c - int k)"
      using lt by simp
    have cl: "\<forall>t. circuitBreakerOpenUntil (half_open s) = Some t \<longrightarrow> t \<le> clock w2"
      by (simp add: half_open_closed)
    from less.hyps [OF m cl]
    obtain res w' n where
      r: "sendEmail c a e b (k + 1) (half_open s) w2 =
             (res, updateMetrics c (clock w') (success res) (error res) (half_open (half_open s)), w')"
      and rq: "requests w' = requests w2 @ replicate (Suc n) (e, b)"
      and ck: "clock w2 \<le> clock w'" and uu: "uuids w' = uuids w2"
      and ok: "success res \<longleftrightarrow> succeeds (fst (a (length (requests w') - 1)))"
              "success res \<longrightarrow> error res = None"
      by blast
    have "requests w' = requests w @ replicate (Suc (Suc n)) (e, b)"
      using rq by (simp add: w2_def delay_def w1_def replicate_append_same)
    moreover have "clock w \<le> clock w'"
      using ck by (simp add: w2_def delay_def w1_def)
    moreover have "uuids w' = uuids w"
      using uu by (simp add: w2_def delay_def w1_def)
    moreover have "sendEmail c a e b k s w =
             (res, updateMetrics c (clock w') (success res) (error res) (half_open s), w')"
      using rec r by (simp add: w2_def half_open_idem)
    ultimately show ?thesis
      using ok by blast
  qed
qed

subsection \<open>The due selection\<close>

text \<open>
  Claim C8 as stated fails: the query of \<^verbatim>\<open>processPendingMessages\<close> has no
  \<^verbatim>\<open>take\<close>, so no limit bounds the result. With two due records (of one user, for
  two years) both are returned, in the order of \<open>scheduledAt\<close>, which exceeds a limit
  of one.
\<close>

theorem findDue_unbounded_counterexample:
  "map id_msg (findDue happy_time two_due) = [2, 1] \<and>
   distinct (map msg_key (messageLogs two_due)) \<and>
   \<not> length (findDue happy_time two_due) \<le> 1"
  by (simp add: findDue_def two_due_def log_on_def johns_log_def isDue_def unlockedAt_def
      happy_time_def msg_key_def)

text \<open>
  Claim C8, amended. The due selection returns exactly the records (with multiplicity)
  whose status is Pending or Retry, whose \<open>scheduledAt\<close> is at most \<open>now\<close>, and whose
  lock is absent (\<open>lockId\<close> null) or expired (\<open>lockedUntil \<le> now\<close>), ordered ascending by
  \<open>scheduledAt\<close>. The number of records returned is not bounded.
\<close>

theorem findDue_exact:
  "mset (findDue now d) =
     filter_mset
       (\<lambda>r. (status r = PENDING \<or> status r = RETRY) \<and> scheduledAt r \<le> now \<and>
            (lockId r = None \<or> (\<exists>t. lockedUntil r = Some t \<and> t \<le> now)))
       (mset (messageLogs d)) \<and>
   sorted (map scheduledAt (findDue now d))"
proof -
  have cond: "isDue now = (\<lambda>r. (status r = PENDING \<or> status r = RETRY) \<and> scheduledAt r \<le> now \<and>
            (lockId r = None \<or> (\<exists>t. lockedUntil r = Some t \<and> t \<le> now)))"
    by (auto simp: isDue_def unlockedAt_def fun_eq_iff split: option.splits)
  show ?thesis
    unfolding cond [symmetric] by (simp add: findDue_def)
qed

theorem findDue_exact_witness:
  "mset (findDue happy_time two_due) = mset (messageLogs two_due) \<and>
   sorted (map scheduledAt (findDue happy_time two_due))"
  using findDue_exact [of happy_time two_due]
  by (simp add: two_due_def log_on_def johns_log_def happy_time_def)

subsection \<open>The processor: user deleted after the lease was taken\<close>

lemma find_map_id:
  assumes "\<And>x. id_msg (f x) = id_msg x"
  shows "find (\<lambda>x. id_msg x = i) (map f xs) = map_option f (find (\<lambda>x. id_msg x = i) xs)"
  using assms by (induction xs) auto










subsection \<open>The processor: release of the lease on an exception\<close>

lemma list_all2_refl_or: "list_all2 (\<lambda>r r'. r' = r \<or> Q r r') xs xs"
  by (rule list.rel_refl_strong) simp

lemma list_all2_map_or:
  "list_all2 (\<lambda>r r'. r' = r \<or> (P r \<and> r' = f r)) xs (map (\<lambda>r. if P r then f r else r) xs)"
  by (induction xs) simp_all

lemma released_no_token:
  "list_all (\<lambda>r'. id_msg r' = messageId \<longrightarrow> lockId r' \<noteq> Some lk)
     (map (\<lambda>r. if id_msg r = messageId \<and> lockId r = Some lk
                then r\<lparr>lockId := None, lockedUntil := None\<rparr> else r) xs)"
  by (induction xs) simp_all

text \<open>
  Claim C10. Whenever the \<^verbatim>\<open>try\<close> block of \<^verbatim>\<open>processMessage\<close> throws (at any
  of its store calls), the catch block changes a record only if it has the processed id and
  still carries this invocation's own lock token, and then only by clearing \<open>lockId\<close>
  and \<open>lockedUntil\<close>; a lease under another token is left as it is. Users, the
  delivery client's state and the world are as the \<^verbatim>\<open>try\<close> block left them. When the
  release itself does not throw, no record with the id carries the token afterwards.
\<close>

theorem processMessage_exception_release:
  assumes "uuidv4 (world st) = (lk, w0)"
    and "processBody env messageId lk (clock w0 + lockDuration) (st\<lparr>world := w0\<rparr>) = Threw st1"
  shows "\<exists>st2. (processMessage env messageId st = Done st2 \<or> processMessage env messageId st = Threw st2) \<and>
           svc st2 = svc st1 \<and> world st2 = world st1 \<and> users (db st2) = users (db st1) \<and>
           list_all2
             (\<lambda>r r'. r' = r \<or>
                ((id_msg r = messageId \<and> lockId r = Some lk) \<and>
                 r' = r\<lparr>lockId := None, lockedUntil := None\<rparr>))
             (messageLogs (db st1)) (messageLogs (db st2)) \<and>
           (\<not> dbFault env messageId ReleaseLease \<longrightarrow>
              list_all (\<lambda>r'. id_msg r' = messageId \<longrightarrow> lockId r' \<noteq> Some lk)
                (messageLogs (db st2)))"
proof (cases "dbFault env messageId ReleaseLease")
  case True
  then have pm: "processMessage env messageId st = Threw st1"
    using assms by (simp add: processMessage_def)
  show ?thesis
  proof (intro exI [of _ st1] conjI)
    show "processMessage env messageId st = Done st1 \<or> processMessage env messageId st = Threw st1"
      using pm by simp
    show "list_all2
             (\<lambda>r r'. r' = r \<or>
                ((id_msg r = messageId \<and> lockId r = Some lk) \<and>
                 r' = r\<lparr>lockId := None, lockedUntil := None\<rparr>))
             (messageLogs (db st1)) (messageLogs (db st1))"
      by (rule list_all2_refl_or)
    show "\<not> dbFault env messageId ReleaseLease \<longrightarrow>
              list_all (\<lambda>r'. id_msg r' = messageId \<longrightarrow> lockId r' \<noteq> Some lk)
                (messageLogs (db st1))"
      using True by simp
  qed simp_all
next
  case False
  define st2 where "st2 = st1\<lparr>db := releaseLease messageId lk (db st1)\<rparr>"
  have pm: "processMessage env messageId st = Done st2"
    using assms False by (simp add: processMessage_def st2_def)
  have logs: "messageLogs (db st2) =
      map (\<lambda>r. if id_msg r = messageId \<and> lockId r = Some lk
                then r\<lparr>lockId := None, lockedUntil := None\<rparr> else r) (messageLogs (db st1))"
    by (simp add: st2_def releaseLease_def)
  show ?thesis
  proof (intro exI [of _ st2] conjI)
    show "processMessage env messageId st = Done st2 \<or> processMessage env messageId st = Threw st2"
      using pm by simp
    show "svc st2 = svc st1" "world st2 = world st1" "users (db st2) = users (db st1)"
      by (simp_all add: st2_def releaseLease_def)
    show "list_all2
             (\<lambda>r r'. r' = r \<or>
                ((id_msg r = messageId \<and> lockId r = Some lk) \<and>
                 r' = r\<lparr>lockId := None, lockedUntil := None\<rparr>))
             (messageLogs (db st1)) (messageLogs (db st2))"
      unfolding logs by (rule list_all2_map_or)
    show "\<not> dbFault env messageId ReleaseLease \<longrightarrow>
              list_all (\<lambda>r'. id_msg r' = messageId \<longrightarrow> lockId r' \<noteq> Some lk)
                (messageLogs (db st2))"
      unfolding logs using released_no_token by blast
  qed
qed


theorem processMessage_exception_release_witness:
  "threw (processBody (env_of (api_always 200 ''OK'') mark_sent_fails) 1 100
            (happy_time + lockDuration)
            (sys_of [john] [johns_log] happy_time
               \<lparr>world := \<lparr>clock = happy_time, requests = [], uuids = 101\<rparr>\<rparr>)) \<and>
   map lockId (messageLogs (db (state_of (processBody (env_of (api_always 200 ''OK'') mark_sent_fails) 1 100
            (happy_time + lockDuration)
            (sys_of [john] [johns_log] happy_time
               \<lparr>world := \<lparr>clock = happy_time, requests = [], uuids = 101\<rparr>\<rparr>))))) = [Some 100] \<and>
   map lockId (messageLogs (db (state_of
      (processMessage (env_of (api_always 200 ''OK'') mark_sent_fails) 1
         (sys_of [john] [johns_log] happy_time))))) = [None] \<and>
   map lockId (messageLogs (db (state_of
      (processMessage (env_of (api_always 200 ''OK'') acquire_fails) 1
         (sys_of [john] [johns_log\<lparr>lockId := Some 55, lockedUntil := Some (happy_time + 9000)\<rparr>]
            happy_time))))) = [Some 55]"
proof -
  let ?w0 = "\<lparr>clock = happy_time, requests = [], uuids = 101\<rparr>"
  let ?envA = "env_of (api_always 200 ''OK'') mark_sent_fails"
  let ?stA = "sys_of [john] [johns_log] happy_time"
  let ?envB = "env_of (api_always 200 ''OK'') acquire_fails"
  let ?stB = "sys_of [john] [johns_log\<lparr>lockId := Some 55, lockedUntil := Some (happy_time + 9000)\<rparr>] happy_time"
  have uA: "uuidv4 (world ?stA) = (100, ?w0)" and uB: "uuidv4 (world ?stB) = (100, ?w0)"
    by (simp_all add: uuidv4_def sys_of_def)
  obtain sA where bA: "processBody ?envA 1 100 (clock ?w0 + lockDuration) (?stA\<lparr>world := ?w0\<rparr>) = Threw sA"
    and lA: "map lockId (messageLogs (db sA)) = [Some 100]" and iA: "map id_msg (messageLogs (db sA)) = [1]"
    by (simp add: processBody_def env_of_def mark_sent_fails_def sys_of_def johns_log_def john_def
        acquireLease_def unlockedAt_def findUniqueWithUser_def sendBirthdayMessage_def
        sendEmail.simps isCircuitBreakerOpen_def newEmailService_def axios_post_def api_always_def)
  obtain sB where bB: "processBody ?envB 1 100 (clock ?w0 + lockDuration) (?stB\<lparr>world := ?w0\<rparr>) = Threw sB"
    and lB: "map lockId (messageLogs (db sB)) = [Some 55]"
    by (simp add: processBody_def env_of_def acquire_fails_def sys_of_def)
  have nf: "\<not> dbFault ?envA 1 ReleaseLease"
    by (simp add: env_of_def mark_sent_fails_def)
  from processMessage_exception_release [OF uA bA] nf
  obtain tA where pA: "processMessage ?envA 1 ?stA = Done tA \<or> processMessage ?envA 1 ?stA = Threw tA"
    and relA: "list_all2
             (\<lambda>r r'. r' = r \<or>
                ((id_msg r = 1 \<and> lockId r = Some 100) \<and>
                 r' = r\<lparr>lockId := None, lockedUntil := None\<rparr>))
             (messageLogs (db sA)) (messageLogs (db tA))"
    and goneA: "list_all (\<lambda>r'. id_msg r' = 1 \<longrightarrow> lockId r' \<noteq> Some 100) (messageLogs (db tA))"
    by blast
  from lA iA obtain z where zA: "messageLogs (db sA) = [z]" "lockId z = Some 100" "id_msg z = 1"
    by (cases "messageLogs (db sA)") simp_all
  from relA zA goneA have "messageLogs (db tA) = [z\<lparr>lockId := None, lockedUntil := None\<rparr>]"
    by (auto simp: list_all2_Cons1)
  then have rA: "map lockId (messageLogs (db (state_of (processMessage ?envA 1 ?stA)))) = [None]"
    using pA by (elim disjE) simp_all
  from processMessage_exception_release [OF uB bB]
  obtain tB where pB: "processMessage ?envB 1 ?stB = Done tB \<or> processMessage ?envB 1 ?stB = Threw tB"
    and relB: "list_all2
             (\<lambda>r r'. r' = r \<or>
                ((id_msg r = 1 \<and> lockId r = Some 100) \<and>
                 r' = r\<lparr>lockId := None, lockedUntil := None\<rparr>))
             (messageLogs (db sB)) (messageLogs (db tB))"
    by blast
  from lB obtain y where yB: "messageLogs (db sB) = [y]" "lockId y = Some 55"
    by (cases "messageLogs (db sB)") simp_all
  from relB yB have "messageLogs (db tB) = [y]"
    by (auto simp: list_all2_Cons1)
  then have rB: "map lockId (messageLogs (db (state_of (processMessage ?envB 1 ?stB)))) = [Some 55]"
    using pB yB by (elim disjE) simp_all
  show ?thesis
    using bA lA rA rB by simp
qed

subsection \<open>The circuit breaker\<close>

lemmas breaker_eval = three_calls_def strict_cfg_def defaultConfig_def api_always_def world_at_def
  sendEmail.simps isCircuitBreakerOpen_def newEmailService_def newMetrics_def axios_post_def
  updateMetrics_def openCircuitBreaker_def isRetryableError_def Let_def str_includes_def
  breakerOpenError_def show_int_def

text \<open>
  Claim C6 on the code. With threshold 1 and a reset time of 60000 ms, a failure at
  clock 20 opens the breaker until 60020, the instant the code logs as
  \<^verbatim>\<open>Will reset at\<close>. A call at 30000 is rejected, and the rejection, counted as a
  failure by \<^verbatim>\<open>updateMetrics(false, error)\<close>, opens the breaker anew until 90000.
  A call at 60020, when the window of 60000 ms has elapsed, is therefore still rejected
  without a request, where the claim has it attempted.
\<close>

theorem rejected_call_extends_breaker_window:
  "(case three_calls strict_cfg (api_always 400 ''Bad Request'') 0 30000 60020 of
      ((r1, s1, w1), (r2, s2, w2), (r3, s3, w3)) \<Rightarrow>
        (clock w1, circuitBreakerOpenUntil s1, length (requests w1),
         circuitBreakerOpenUntil s2,
         clock w3, success r3, error r3, length (requests w3))) =
   (20, Some 60020, 1, Some 90000, 60020, False, Some breakerOpenError, 1)"
  by (simp add: breaker_eval)

lemma updateMetrics_success:
  "failureCount (metrics (updateMetrics c now True err s)) = 0"
  "circuitBreakerOpenUntil (updateMetrics c now True err s) = circuitBreakerOpenUntil s"
  by (simp_all add: updateMetrics_def Let_def)

lemma updateMetrics_failure:
  "failureCount (metrics (updateMetrics c now False err s)) = failureCount (metrics s) + 1"
  "circuitBreakerOpenUntil (updateMetrics c now False err s) =
     (if circuitBreakerThreshold c \<le> int (failureCount (metrics s)) + 1
      then Some (now + circuitBreakerResetTime c) else circuitBreakerOpenUntil s)"
  by (simp_all add: updateMetrics_def openCircuitBreaker_def Let_def split: option.splits)

text \<open>
  What one invocation of \<^verbatim>\<open>sendEmail\<close> does to the breaker. While the clock is
  before \<open>circuitBreakerOpenUntil\<close> the call returns the breaker-open failure without a
  request and without passing time; it counts as a failure, and with the counter at the
  threshold it sets \<open>circuitBreakerOpenUntil\<close> to the reset time after the rejected
  call. Once the clock has reached \<open>circuitBreakerOpenUntil\<close> (or the breaker is
  closed) the call is attempted, with at least one request. A success closes the breaker
  and sets the consecutive-failure counter to zero. A failure adds one to the counter
  and, when that reaches the threshold, opens the breaker until the reset time after the
  failure.
\<close>

lemma sendEmail_breaker:
  assumes run: "sendEmail c a e b k s w = (res, s', w')"
  shows "(\<forall>t. circuitBreakerOpenUntil s = Some t \<and> clock w < t \<longrightarrow>
            \<not> success res \<and> error res = Some breakerOpenError \<and> w' = w \<and>
            failureCount (metrics s') = failureCount (metrics s) + 1 \<and>
            circuitBreakerOpenUntil s' =
              (if circuitBreakerThreshold c \<le> int (failureCount (metrics s)) + 1
               then Some (clock w + circuitBreakerResetTime c) else Some t)) \<and>
         ((\<forall>t. circuitBreakerOpenUntil s = Some t \<longrightarrow> t \<le> clock w) \<longrightarrow>
            (\<exists>n. requests w' = requests w @ replicate (Suc n) (e, b)) \<and>
            (success res \<longrightarrow>
               circuitBreakerOpenUntil s' = None \<and> failureCount (metrics s') = 0) \<and>
            (\<not> success res \<longrightarrow>
               failureCount (metrics s') = failureCount (metrics s) + 1 \<and>
               circuitBreakerOpenUntil s' =
                 (if circuitBreakerThreshold c \<le> int (failureCount (metrics s)) + 1
                  then Some (clock w' + circuitBreakerResetTime c) else None)))"
proof (intro conjI allI impI)
  fix t
  assume "circuitBreakerOpenUntil s = Some t \<and> clock w < t"
  then have op: "circuitBreakerOpenUntil s = Some t" "clock w < t"
    by simp_all
  from sendEmail_blocked [OF op, of c a e b k] run
  have r: "res = \<lparr>success = False, error = Some breakerOpenError\<rparr>"
    and s': "s' = updateMetrics c (clock w) False (Some breakerOpenError) s" and w': "w' = w"
    by simp_all
  show "\<not> success res" "error res = Some breakerOpenError" "w' = w"
    using r w' by simp_all
  show "failureCount (metrics s') = failureCount (metrics s) + 1"
    unfolding s' by (rule updateMetrics_failure)
  show "circuitBreakerOpenUntil s' =
          (if circuitBreakerThreshold c \<le> int (failureCount (metrics s)) + 1
           then Some (clock w + circuitBreakerResetTime c) else Some t)"
    unfolding s' by (simp add: updateMetrics_failure op)
next
  assume closed: "\<forall>t. circuitBreakerOpenUntil s = Some t \<longrightarrow> t \<le> clock w"
  from sendEmail_attempted [OF closed, of c a e b k] run
  obtain n where rq: "requests w' = requests w @ replicate (Suc n) (e, b)"
    and s': "s' = updateMetrics c (clock w') (success res) (error res) (half_open s)"
    by auto
  show "\<exists>n. requests w' = requests w @ replicate (Suc n) (e, b)"
    using rq by blast
  {
    assume "success res"
    then show "circuitBreakerOpenUntil s' = None" "failureCount (metrics s') = 0"
      unfolding s' by (simp_all add: updateMetrics_success half_open_def)
  }
  {
    assume "\<not> success res"
    then show "failureCount (metrics s') = failureCount (metrics s) + 1"
      "circuitBreakerOpenUntil s' =
          (if circuitBreakerThreshold c \<le> int (failureCount (metrics s)) + 1
           then Some (clock w' + circuitBreakerResetTime c) else None)"
      unfolding s' by (simp_all add: updateMetrics_failure half_open_def)
  }
qed

lemma sendEmail_breaker_example:
  "(case sendEmail test_cfg (api_always 200 ''OK'') ''a@b.c'' ''hi'' 0 tripped (clock_at 4500) of
      (res, s', w') \<Rightarrow>
        \<not> success res \<and> error res = Some breakerOpenError \<and> requests w' = [] \<and>
        failureCount (metrics s') = 4 \<and> circuitBreakerOpenUntil s' = Some 5500) \<and>
   (case sendEmail test_cfg (api_always 200 ''OK'') ''a@b.c'' ''hi'' 0 tripped (clock_at 5000) of
      (res, s', w') \<Rightarrow>
        success res \<and> (\<exists>n. requests w' = replicate (Suc n) (''a@b.c'', ''hi'')) \<and>
        circuitBreakerOpenUntil s' = None \<and> failureCount (metrics s') = 0) \<and>
   (case sendEmail test_cfg (api_always 400 ''Bad Request'') ''a@b.c'' ''hi'' 0 tripped (clock_at 5000) of
      (res, s', w') \<Rightarrow>
        \<not> success res \<and> (\<exists>n. requests w' = replicate (Suc n) (''a@b.c'', ''hi'')) \<and>
        circuitBreakerOpenUntil s' = Some (clock w' + 1000) \<and> failureCount (metrics s') = 4)"
proof -
  obtain r1 s1 w1 where e1:
    "sendEmail test_cfg (api_always 200 ''OK'') ''a@b.c'' ''hi'' 0 tripped (clock_at 4500) = (r1, s1, w1)"
    by (cases "sendEmail test_cfg (api_always 200 ''OK'') ''a@b.c'' ''hi'' 0 tripped (clock_at 4500)")
  obtain r2 s2 w2 where e2:
    "sendEmail test_cfg (api_always 200 ''OK'') ''a@b.c'' ''hi'' 0 tripped (clock_at 5000) = (r2, s2, w2)"
    by (cases "sendEmail test_cfg (api_always 200 ''OK'') ''a@b.c'' ''hi'' 0 tripped (clock_at 5000)")
  obtain r3 s3 w3 where e3:
    "sendEmail test_cfg (api_always 400 ''Bad Request'') ''a@b.c'' ''hi'' 0 tripped (clock_at 5000) = (r3, s3, w3)"
    by (cases "sendEmail test_cfg (api_always 400 ''Bad Request'') ''a@b.c'' ''hi'' 0 tripped (clock_at 5000)")
  have open4: "circuitBreakerOpenUntil tripped = Some 5000 \<and> clock (clock_at 4500) < 5000"
    and elapsed: "\<forall>t. circuitBreakerOpenUntil tripped = Some t \<longrightarrow> t \<le> clock (clock_at 5000)"
    and cnt: "failureCount (metrics tripped) = 3" "circuitBreakerThreshold test_cfg = 3"
      "circuitBreakerResetTime test_cfg = 1000" "requests (clock_at 4500) = []"
      "requests (clock_at 5000) = []" "clock (clock_at 4500) = 4500"
    by (simp_all add: tripped_def clock_at_def test_cfg_def newMetrics_def defaultConfig_def)
  have ok2: "success r2"
    using e2 by (auto simp: sendEmail.simps tripped_def clock_at_def isCircuitBreakerOpen_def
        axios_post_def api_always_def split: prod.splits)
  have ko3: "\<not> success r3"
    using e3 by (auto simp: sendEmail.simps tripped_def clock_at_def isCircuitBreakerOpen_def
        axios_post_def api_always_def isRetryableError_def Let_def split: prod.splits)
  have c1: "\<not> success r1 \<and> error r1 = Some breakerOpenError \<and> requests w1 = [] \<and>
        failureCount (metrics s1) = 4 \<and> circuitBreakerOpenUntil s1 = Some 5500"
    using sendEmail_breaker [OF e1] open4 cnt by simp
  have c2: "success r2 \<and> (\<exists>n. requests w2 = replicate (Suc n) (''a@b.c'', ''hi'')) \<and>
        circuitBreakerOpenUntil s2 = None \<and> failureCount (metrics s2) = 0"
    using sendEmail_breaker [OF e2] elapsed ok2 cnt by simp
  have c3: "\<not> success r3 \<and> (\<exists>n. requests w3 = replicate (Suc n) (''a@b.c'', ''hi'')) \<and>
        circuitBreakerOpenUntil s3 = Some (clock w3 + 1000) \<and> failureCount (metrics s3) = 4"
    using sendEmail_breaker [OF e3] elapsed ko3 cnt by simp
  show ?thesis
    using c1 c2 c3 by (simp add: e1 e2 e3)
qed

subsection \<open>Retry exhaustion across ticks\<close>

lemma sendEmail_outcome:
  "\<exists>res s' w'. sendEmail c a e b k s w = (res, s', w') \<and> clock w \<le> clock w' \<and>
      uuids w' = uuids w \<and>
      (success res \<longrightarrow> succeeds (fst (a (length (requests w') - 1))))"
proof (cases "\<forall>t. circuitBreakerOpenUntil s = Some t \<longrightarrow> t \<le> clock w")
  case True
  from sendEmail_attempted [OF True, of c a e b k] show ?thesis
    by blast
next
  case False
  then obtain t where "circuitBreakerOpenUntil s = Some t" "clock w < t"
    by auto
  from sendEmail_blocked [OF this, of c a e b k] show ?thesis
    by simp
qed

lemma at_time_simps:
  "db (at_time t st) = db st" "svc (at_time t st) = svc st"
  "clock (world (at_time t st)) = max t (clock (world st))"
  "requests (world (at_time t st)) = requests (world st)"
  "uuids (world (at_time t st)) = uuids (world st)"
  by (simp_all add: at_time_def)

text \<open>One processor tick on a store holding one due record, when delivery fails.\<close>

lemma failing_tick:
  assumes store: "db st = \<lparr>users = us, messageLogs = [r]\<rparr>"
    and user: "find (\<lambda>u. id_user u = userId r) us = Some u"
    and due: "status r = PENDING \<or> status r = RETRY" "scheduledAt r \<le> clock (world st)"
      "lockId r = None"
    and nofault: "\<And>x. \<not> dbFault env (id_msg r) x"
    and fails: "\<And>n. \<not> succeeds (fst (api env n))"
  shows "\<exists>st' err. processPendingMessages env st = Done st' \<and>
           db st' = \<lparr>users = us, messageLogs =
             [r\<lparr>status := (if retryCount r + 1 \<ge> maxRetries (cfg env) then FAILED else RETRY),
                retryCount := retryCount r + 1, errorMessage := Some err,
                lockId := None, lockedUntil := None\<rparr>]\<rparr> \<and>
           clock (world st) \<le> clock (world st')"
proof -
  define now where "now = clock (world st)"
  define lk where "lk = uuids (world st)"
  define w0 where "w0 = (world st)\<lparr>uuids := Suc (uuids (world st))\<rparr>"
  define r1 where "r1 = r\<lparr>lockId := Some lk, lockedUntil := Some (now + lockDuration)\<rparr>"
  define d1 where "d1 = \<lparr>users = us, messageLogs = [r1]\<rparr>"
  define st0 where "st0 = st\<lparr>world := w0\<rparr>"
  have free: "unlockedAt now r"
    using due by (simp add: unlockedAt_def)
  have sel: "map id_msg (findDue (clock (world st)) (db st)) = [id_msg r]"
    using due free store by (simp add: findDue_def isDue_def now_def)
  have acq: "acquireLease (id_msg r) lk (clock w0 + lockDuration) (clock (world st0)) (db st0) = (1, d1)"
    using free store by (simp add: acquireLease_def st0_def w0_def d1_def r1_def now_def)
  have reread: "findUniqueWithUser (id_msg r) d1 = Some (r1, Some u)"
    using user by (simp add: findUniqueWithUser_def d1_def r1_def)
  obtain res s' w' where send: "sendBirthdayMessage (cfg env) (api env) (email u)
        (firstName u @ '' '' @ lastName u) (svc st0) (world st0) = (res, s', w')"
    and ck: "clock (world st0) \<le> clock w'" and ns: "\<not> success res"
    using sendEmail_outcome [of "cfg env" "api env" "email u"
        "birthdayText (firstName u @ '' '' @ lastName u)" 0 "svc st0" "world st0"] fails
    unfolding sendBirthdayMessage_def by blast
  define err where "err = (case error res of None \<Rightarrow> ''Unknown error''
                            | Some m \<Rightarrow> if m = [] then ''Unknown error'' else m)"
  define r2 where "r2 = r\<lparr>status := (if retryCount r + 1 \<ge> maxRetries (cfg env) then FAILED else RETRY),
                retryCount := retryCount r + 1, errorMessage := Some err,
                lockId := None, lockedUntil := None\<rparr>"
  define st2 where "st2 = st0\<lparr>db := \<lparr>users = us, messageLogs = [r2]\<rparr>, svc := s', world := w'\<rparr>"
  have mf: "markFailure (maxRetries (cfg env)) (retryCount r1 + 1) (error res) r1 = r2"
    by (simp add: markFailure_def r1_def r2_def err_def)
  have upd: "updateById (id_msg r)
      (markFailure (maxRetries (cfg env)) (retryCount r1 + 1) (error res)) d1 =
      Some \<lparr>users = us, messageLogs = [r2]\<rparr>"
    using mf by (simp add: updateById_def d1_def r1_def)
  have body: "processBody env (id_msg r) lk (clock w0 + lockDuration) st0 = Done st2"
    unfolding processBody_def
    using acq reread send ns upd nofault
    by (simp add: st0_def st2_def)
  have pm: "processMessage env (id_msg r) st = Done st2"
    using body by (simp add: processMessage_def uuidv4_def lk_def w0_def st0_def)
  have "processPendingMessages env st = Done st2"
    using pm sel by (simp add: processPendingMessages_def)
  moreover have "db st2 = \<lparr>users = us, messageLogs = [r2]\<rparr>"
    by (simp add: st2_def)
  moreover have "clock (world st) \<le> clock (world st2)"
    using ck by (simp add: st2_def st0_def w0_def)
  ultimately show ?thesis
    unfolding r2_def by blast
qed


lemma terminal_not_selected:
  assumes "db st = \<lparr>users = us, messageLogs = [r]\<rparr>" "status r = FAILED \<or> status r = SENT"
  shows "processPendingMessages env st = Done st"
  using assms by (auto simp: processPendingMessages_def findDue_def isDue_def)

text \<open>
  Claim C2 as stated fails: with \<^verbatim>\<open>maxRetries = 3\<close> and a delivery API that answers
  500 to every request, the record is Failed after the third tick, not Retry.
\<close>

theorem retry_exhaustion_counterexample:
  "status_counts (run_ticks env_500 [happy_time, happy_time + 60000, happy_time + 120000]
      (sys_of [john] [johns_log] happy_time)) = [(FAILED, 3)] \<and>
   status_counts (run_ticks env_500 [happy_time, happy_time + 60000, happy_time + 120000]
      (sys_of [john] [johns_log] happy_time)) \<noteq> [(RETRY, 3)]"
proof -
  have "status_counts (run_ticks env_500 [happy_time, happy_time + 60000, happy_time + 120000]
      (sys_of [john] [johns_log] happy_time)) = [(FAILED, 3)]"
    by code_simp
  then show ?thesis
    by simp
qed

text \<open>
  Claim C2, amended. With \<^verbatim>\<open>maxRetries = 3\<close>, no store fault, and a delivery that
  fails on every attempt (no request is answered 2xx; the breaker may reject calls),
  successive processor ticks on a store holding one fresh due record give: after tick 1
  Retry with \<open>retryCount = 1\<close>, after tick 2 Retry with 2, after tick 3 Failed with 3.
  A fourth tick does not select the record: it stays Failed with 3 and no request is made.
  Each tick that processes the record adds exactly one to the counter.
\<close>

theorem retry_exhaustion:
  assumes store: "db st = \<lparr>users = us, messageLogs = [r]\<rparr>"
    and user: "find (\<lambda>u. id_user u = userId r) us = Some u"
    and fresh: "status r = PENDING" "retryCount r = 0" "lockId r = None"
    and due: "scheduledAt r \<le> t1"
    and three: "maxRetries (cfg env) = 3"
    and nofault: "\<And>x. \<not> dbFault env (id_msg r) x"
    and fails: "\<And>n. \<not> succeeds (fst (api env n))"
  shows "\<exists>st1 st2 st3 st4.
           processPendingMessages env (at_time t1 st) = Done st1 \<and>
           map (\<lambda>x. (status x, retryCount x)) (messageLogs (db st1)) = [(RETRY, 1)] \<and>
           processPendingMessages env (at_time t2 st1) = Done st2 \<and>
           map (\<lambda>x. (status x, retryCount x)) (messageLogs (db st2)) = [(RETRY, 2)] \<and>
           processPendingMessages env (at_time t3 st2) = Done st3 \<and>
           map (\<lambda>x. (status x, retryCount x)) (messageLogs (db st3)) = [(FAILED, 3)] \<and>
           processPendingMessages env (at_time t4 st3) = Done st4 \<and>
           map (\<lambda>x. (status x, retryCount x)) (messageLogs (db st4)) = [(FAILED, 3)] \<and>
           requests (world st4) = requests (world st3)"
proof -
  have d0: "scheduledAt r \<le> clock (world (at_time t1 st))"
    using due by (simp add: at_time_simps)
  from failing_tick [of "at_time t1 st" us r u env, OF _ user _ d0 fresh(3) nofault fails]
    store fresh three
  obtain st1 e1 where p1: "processPendingMessages env (at_time t1 st) = Done st1"
    and s1: "db st1 = \<lparr>users = us, messageLogs =
        [r\<lparr>status := RETRY, retryCount := 1, errorMessage := Some e1,
           lockId := None, lockedUntil := None\<rparr>]\<rparr>"
    and c1: "clock (world (at_time t1 st)) \<le> clock (world st1)"
    by (auto simp: at_time_simps)
  define r1 where "r1 = r\<lparr>status := RETRY, retryCount := 1, errorMessage := Some e1,
           lockId := None, lockedUntil := None\<rparr>"
  have d1: "scheduledAt r1 \<le> clock (world (at_time t2 st1))"
    using d0 c1 by (auto simp: at_time_simps r1_def)
  have u1: "find (\<lambda>u. id_user u = userId r1) us = Some u"
    using user by (simp add: r1_def)
  have nf1: "\<And>x. \<not> dbFault env (id_msg r1) x"
    using nofault by (simp add: r1_def)
  from failing_tick [of "at_time t2 st1" us r1 u env, OF _ u1 _ d1 _ nf1 fails] s1 three
  obtain st2 e2 where p2: "processPendingMessages env (at_time t2 st1) = Done st2"
    and s2: "db st2 = \<lparr>users = us, messageLogs =
        [r1\<lparr>status := RETRY, retryCount := 2, errorMessage := Some e2,
           lockId := None, lockedUntil := None\<rparr>]\<rparr>"
    and c2: "clock (world (at_time t2 st1)) \<le> clock (world st2)"
    by (auto simp: at_time_simps r1_def)
  define r2 where "r2 = r1\<lparr>status := RETRY, retryCount := 2, errorMessage := Some e2,
           lockId := None, lockedUntil := None\<rparr>"
  have d2: "scheduledAt r2 \<le> clock (world (at_time t3 st2))"
    using d1 c2 by (auto simp: at_time_simps r2_def)
  have u2: "find (\<lambda>u. id_user u = userId r2) us = Some u"
    using u1 by (simp add: r2_def)
  have nf2: "\<And>x. \<not> dbFault env (id_msg r2) x"
    using nf1 by (simp add: r2_def)
  from failing_tick [of "at_time t3 st2" us r2 u env, OF _ u2 _ d2 _ nf2 fails] s2 three
  obtain st3 e3 where p3: "processPendingMessages env (at_time t3 st2) = Done st3"
    and s3: "db st3 = \<lparr>users = us, messageLogs =
        [r2\<lparr>status := FAILED, retryCount := 3, errorMessage := Some e3,
           lockId := None, lockedUntil := None\<rparr>]\<rparr>"
    by (auto simp: at_time_simps r2_def)
  have p4: "processPendingMessages env (at_time t4 st3) = Done (at_time t4 st3)"
    using terminal_not_selected [of "at_time t4 st3" us _ env] s3 by (simp add: at_time_simps)
  show ?thesis
    using p1 p2 p3 p4 s1 s2 s3 by (simp add: at_time_simps r1_def r2_def)
qed

theorem retry_exhaustion_witness:
  "\<exists>st1 st2 st3 st4.
     processPendingMessages env_500 (at_time happy_time (sys_of [john] [johns_log] happy_time)) = Done st1 \<and>
     status_counts st1 = [(RETRY, 1)] \<and>
     processPendingMessages env_500 (at_time (happy_time + 60000) st1) = Done st2 \<and>
     status_counts st2 = [(RETRY, 2)] \<and>
     processPendingMessages env_500 (at_time (happy_time + 120000) st2) = Done st3 \<and>
     status_counts st3 = [(FAILED, 3)] \<and>
     processPendingMessages env_500 (at_time (happy_time + 180000) st3) = Done st4 \<and>
     status_counts st4 = [(FAILED, 3)] \<and>
     requests (world st4) = requests (world st3)"
proof -
  have store: "db (sys_of [john] [johns_log] happy_time) = \<lparr>users = [john], messageLogs = [johns_log]\<rparr>"
    by (simp add: sys_of_def)
  have user: "find (\<lambda>u. id_user u = userId johns_log) [john] = Some john"
    by (simp add: john_def johns_log_def)
  have fresh: "status johns_log = PENDING" "retryCount johns_log = 0" "lockId johns_log = None"
    and due: "scheduledAt johns_log \<le> happy_time"
    by (simp_all add: johns_log_def happy_time_def)
  have three: "maxRetries (cfg env_500) = 3"
    by (simp add: env_500_def env_of_def defaultConfig_def)
  have nofault: "\<And>x. \<not> dbFault env_500 (id_msg johns_log) x"
    by (simp add: env_500_def env_of_def no_fault_def)
  have fails: "\<And>n. \<not> succeeds (fst (api env_500 n))"
    by (simp add: env_500_def env_of_def api_always_def succeeds_def)
  show ?thesis
    unfolding status_counts_def
    by (rule retry_exhaustion [OF store user fresh due three nofault fails])
qed

subsection \<open>The text handed to the delivery client\<close>

lemma sendEmail_requests:
  "\<exists>n. requests (snd (snd (sendEmail c a e b k s w))) = requests w @ replicate n (e, b)"
proof (cases "\<forall>t. circuitBreakerOpenUntil s = Some t \<longrightarrow> t \<le> clock w")
  case True
  from sendEmail_attempted [OF True, of c a e b k]
  obtain res w' n where "sendEmail c a e b k s w =
      (res, updateMetrics c (clock w') (success res) (error res) (half_open s), w')"
    "requests w' = requests w @ replicate (Suc n) (e, b)"
    by blast
  then have "requests (snd (snd (sendEmail c a e b k s w))) = requests w @ replicate (Suc n) (e, b)"
    by simp
  then show ?thesis ..
next
  case False
  then obtain t where "circuitBreakerOpenUntil s = Some t" "clock w < t"
    by auto
  from sendEmail_blocked [OF this, of c a e b k]
  have "requests (snd (snd (sendEmail c a e b k s w))) = requests w @ replicate 0 (e, b)"
    by simp
  then show ?thesis ..
qed

lemma birthdayText_literal:
  "birthdayText (firstName u @ '' '' @ lastName u) =
     ''Hey, '' @ firstName u @ '' '' @ lastName u @ '' it'' @ [CHR 0x27] @ ''s your birthday''"
  by (simp add: birthdayText_def)

text \<open>The try block once the lease is held and the record and its user are re-read.\<close>

lemma processBody_delivering:
  assumes "\<not> dbFault env messageId AcquireLease"
    and "acquireLease messageId lk until (clock (world st)) (db st) = (m, d1)" "m \<noteq> 0"
    and "\<not> dbFault env messageId ReRead"
    and "findUniqueWithUser messageId d1 = Some (r1, Some u)"
    and "sendBirthdayMessage (cfg env) (api env) (email u)
           (firstName u @ '' '' @ lastName u) (svc st) (world st) = (res, s', w')"
  shows "processBody env messageId lk until st =
     (if success res then
        (if dbFault env messageId MarkSent then Threw (st\<lparr>db := d1, svc := s', world := w'\<rparr>)
         else (case updateById messageId (markSent (clock w')) d1 of
                 None \<Rightarrow> Threw (st\<lparr>db := d1, svc := s', world := w'\<rparr>)
               | Some d' \<Rightarrow> Done (st\<lparr>db := d', svc := s', world := w'\<rparr>)))
      else
        (if dbFault env messageId MarkFailure then Threw (st\<lparr>db := d1, svc := s', world := w'\<rparr>)
         else (case updateById messageId
                      (markFailure (maxRetries (cfg env)) (retryCount r1 + 1) (error res)) d1 of
                 None \<Rightarrow> Threw (st\<lparr>db := d1, svc := s', world := w'\<rparr>)
               | Some d' \<Rightarrow> Done (st\<lparr>db := d', svc := s', world := w'\<rparr>))))"
  using assms by (simp add: processBody_def split: option.splits)

lemma processBody_delivering_world:
  assumes "\<not> dbFault env messageId AcquireLease"
    and "acquireLease messageId lk until (clock (world st)) (db st) = (m, d1)" "m \<noteq> 0"
    and "\<not> dbFault env messageId ReRead"
    and "findUniqueWithUser messageId d1 = Some (r1, Some u)"
    and "sendBirthdayMessage (cfg env) (api env) (email u)
           (firstName u @ '' '' @ lastName u) (svc st) (world st) = (res, s', w')"
  shows "world (state_of (processBody env messageId lk until st)) = w'"
  unfolding processBody_delivering [OF assms]
  by (simp split: option.splits)

lemma processBody_idle_world:
  assumes "acquireLease messageId lk until (clock (world st)) (db st) = (m, d1)"
    and "dbFault env messageId AcquireLease \<or> m = 0 \<or> dbFault env messageId ReRead"
  shows "world (state_of (processBody env messageId lk until st)) = world st"
  using assms by (auto simp: processBody_def)

text \<open>What the try block posts, when the record and its user are there.\<close>

lemma processBody_requests:
  assumes found: "find (\<lambda>x. id_msg x = messageId) (messageLogs (db st)) = Some r"
    and user: "find (\<lambda>u. id_user u = userId r) (users (db st)) = Some u"
  shows "\<exists>n. requests (world (state_of (processBody env messageId lk until st))) =
           requests (world st) @
             replicate n (email u, birthdayText (firstName u @ '' '' @ lastName u))"
proof -
  define lease where "lease = (\<lambda>x. if id_msg x = messageId \<and> unlockedAt (clock (world st)) x
      then x\<lparr>lockId := Some lk, lockedUntil := Some until\<rparr> else x)"
  define d1 where "d1 = (db st)\<lparr>messageLogs := map lease (messageLogs (db st))\<rparr>"
  define m where "m = length (filter (\<lambda>x. id_msg x = messageId \<and> unlockedAt (clock (world st)) x)
      (messageLogs (db st)))"
  define btext where "btext = birthdayText (firstName u @ '' '' @ lastName u)"
  have acq: "acquireLease messageId lk until (clock (world st)) (db st) = (m, d1)"
    by (simp add: acquireLease_def m_def d1_def lease_def)
  show ?thesis
  proof (cases "dbFault env messageId AcquireLease \<or> m = 0 \<or> dbFault env messageId ReRead")
    case True
    have "requests (world (state_of (processBody env messageId lk until st))) =
        requests (world st) @ replicate 0 (email u, birthdayText (firstName u @ '' '' @ lastName u))"
      using processBody_idle_world [OF acq True] by simp
    then show ?thesis ..
  next
    case False
    have f1: "find (\<lambda>x. id_msg x = messageId) (map lease (messageLogs (db st))) = Some (lease r)"
      using found by (subst find_map_id) (auto simp: lease_def)
    have uid: "userId (lease r) = userId r"
      by (simp add: lease_def)
    have reread: "findUniqueWithUser messageId d1 = Some (lease r, Some u)"
      using f1 user by (simp add: findUniqueWithUser_def d1_def uid)
    obtain res s' w' where send: "sendBirthdayMessage (cfg env) (api env) (email u)
        (firstName u @ '' '' @ lastName u) (svc st) (world st) = (res, s', w')"
      by (cases "sendBirthdayMessage (cfg env) (api env) (email u)
        (firstName u @ '' '' @ lastName u) (svc st) (world st)")
    from sendEmail_requests [of "cfg env" "api env" "email u" btext 0 "svc st" "world st"] send
    obtain n where rq: "requests w' = requests (world st) @ replicate n (email u, btext)"
      by (auto simp: sendBirthdayMessage_def btext_def)
    have "world (state_of (processBody env messageId lk until st)) = w'"
      using processBody_delivering_world [OF _ acq _ _ reread send] False by simp
    then have "requests (world (state_of (processBody env messageId lk until st))) =
        requests (world st) @ replicate n (email u, birthdayText (firstName u @ '' '' @ lastName u))"
      using rq by (simp add: btext_def)
    then show ?thesis ..
  qed
qed

lemma processMessage_world:
  "world (state_of (processMessage env messageId st)) =
     world (state_of (processBody env messageId (uuids (world st))
        (clock (world st) + lockDuration) (st\<lparr>world := (world st)\<lparr>uuids := Suc (uuids (world st))\<rparr>\<rparr>)))"
  by (simp add: processMessage_def uuidv4_def split: attempt.splits)


lemma processMessage_requests:
  assumes found: "find (\<lambda>x. id_msg x = messageId) (messageLogs (db st)) = Some r"
    and user: "find (\<lambda>u. id_user u = userId r) (users (db st)) = Some u"
  shows "\<exists>n. requests (world (state_of (processMessage env messageId st))) =
           requests (world st) @
             replicate n (email u, birthdayText (firstName u @ '' '' @ lastName u))"
proof -
  define st0 where "st0 = st\<lparr>world := (world st)\<lparr>uuids := Suc (uuids (world st))\<rparr>\<rparr>"
  have "find (\<lambda>x. id_msg x = messageId) (messageLogs (db st0)) = Some r"
    "find (\<lambda>u. id_user u = userId r) (users (db st0)) = Some u"
    using found user by (simp_all add: st0_def)
  from processBody_requests [OF this, of env "uuids (world st)" "clock (world st) + lockDuration"]
  show ?thesis
    by (simp add: processMessage_world st0_def)
qed

text \<open>With the lease free, the breaker closed and no store fault, a request is posted.\<close>

lemma processMessage_delivers:
  assumes found: "find (\<lambda>x. id_msg x = messageId) (messageLogs (db st)) = Some r"
    and user: "find (\<lambda>u. id_user u = userId r) (users (db st)) = Some u"
    and free: "unlockedAt (clock (world st)) r"
    and ok: "\<not> dbFault env messageId AcquireLease" "\<not> dbFault env messageId ReRead"
    and closed: "\<forall>t. circuitBreakerOpenUntil (svc st) = Some t \<longrightarrow> t \<le> clock (world st)"
  shows "\<exists>n. requests (world (state_of (processMessage env messageId st))) =
           requests (world st) @
             replicate (Suc n) (email u, birthdayText (firstName u @ '' '' @ lastName u))"
proof -
  define lk where "lk = uuids (world st)"
  define until where "until = clock (world st) + lockDuration"
  define st0 where "st0 = st\<lparr>world := (world st)\<lparr>uuids := Suc (uuids (world st))\<rparr>\<rparr>"
  define lease where "lease = (\<lambda>x. if id_msg x = messageId \<and> unlockedAt (clock (world st)) x
      then x\<lparr>lockId := Some lk, lockedUntil := Some until\<rparr> else x)"
  define d1 where "d1 = (db st)\<lparr>messageLogs := map lease (messageLogs (db st))\<rparr>"
  define m where "m = length (filter (\<lambda>x. id_msg x = messageId \<and> unlockedAt (clock (world st)) x)
      (messageLogs (db st)))"
  define btext where "btext = birthdayText (firstName u @ '' '' @ lastName u)"
  have acq: "acquireLease messageId lk until (clock (world st0)) (db st0) = (m, d1)"
    by (simp add: acquireLease_def m_def d1_def lease_def st0_def)
  have mem: "r \<in> set (messageLogs (db st))" and idr: "id_msg r = messageId"
    using found by (auto simp: find_Some_iff)
  have m0: "m \<noteq> 0"
    using mem idr free by (auto simp: m_def filter_empty_conv)
  have f1: "find (\<lambda>x. id_msg x = messageId) (map lease (messageLogs (db st))) = Some (lease r)"
    using found by (subst find_map_id) (auto simp: lease_def)
  have uid: "userId (lease r) = userId r"
    by (simp add: lease_def)
  have reread: "findUniqueWithUser messageId d1 = Some (lease r, Some u)"
    using f1 user by (simp add: findUniqueWithUser_def d1_def uid)
  have cl0: "\<forall>t. circuitBreakerOpenUntil (svc st0) = Some t \<longrightarrow> t \<le> clock (world st0)"
    using closed by (simp add: st0_def)
  from sendEmail_attempted [OF cl0, of "cfg env" "api env" "email u" btext 0]
  obtain res w' n where send: "sendEmail (cfg env) (api env) (email u) btext 0 (svc st0) (world st0) =
      (res, updateMetrics (cfg env) (clock w') (success res) (error res) (half_open (svc st0)), w')"
    and rq: "requests w' = requests (world st0) @ replicate (Suc n) (email u, btext)"
    by blast
  have send': "sendBirthdayMessage (cfg env) (api env) (email u)
      (firstName u @ '' '' @ lastName u) (svc st0) (world st0) =
      (res, updateMetrics (cfg env) (clock w') (success res) (error res) (half_open (svc st0)), w')"
    using send by (simp add: sendBirthdayMessage_def btext_def)
  have "world (state_of (processBody env messageId lk until st0)) = w'"
    using processBody_delivering_world [OF ok(1) acq m0 ok(2) reread send'] .
  then have "world (state_of (processMessage env messageId st)) = w'"
    by (simp add: processMessage_world lk_def until_def st0_def)
  then have "requests (world (state_of (processMessage env messageId st))) =
      requests (world st) @ replicate (Suc n) (email u, btext)"
    using rq by (simp add: st0_def)
  then show ?thesis
    unfolding btext_def ..
qed

lemma ensureBirthdayMessage_creates:
  assumes "findByKey (id_user u0) BIRTHDAY
             (format_ymd lib (tz_now lib (timezone u0) (clock (world st0)))) (db st0) = None"
  shows "\<exists>r0. messageLogs (db (ensureBirthdayMessage lib sc u0 st0)) = messageLogs (db st0) @ [r0] \<and>
           userId r0 = id_user u0 \<and> status r0 = PENDING \<and>
           message r0 =
             ''Hey, '' @ firstName u0 @ '' '' @ lastName u0 @ '' it'' @ [CHR 0x27] @ ''s your birthday''"
proof -
  have "\<not> list_ex (hasKey (id_user u0) BIRTHDAY
             (format_ymd lib (tz_now lib (timezone u0) (clock (world st0))))) (messageLogs (db st0))"
    using assms by (simp add: findByKey_def find_None_iff list_ex_iff)
  then show ?thesis
    using assms
    by (simp add: ensureBirthdayMessage_def createMessageLog_def uuidv4_def Let_def)
qed

text \<open>
  Claim C3 as stated fails: \<^verbatim>\<open>processMessage\<close> does not read the stored
  \<^verbatim>\<open>message\<close>; it renders the text anew from the user row it re-reads. After a
  change of the first name the delivered text differs from the stored one.
\<close>

theorem delivered_text_counterexample:
  "requests (world (state_of (processMessage env_ok 1 (sys_of [renamed] [johns_log] happy_time)))) =
     [(''john@example.com'', ''Hey, Jonathan Doe it'' @ [CHR 0x27] @ ''s your birthday'')] \<and>
   message johns_log = ''Hey, John Doe it'' @ [CHR 0x27] @ ''s your birthday'' \<and>
   map snd (requests (world (state_of (processMessage env_ok 1
       (sys_of [renamed] [johns_log] happy_time))))) \<noteq> [message johns_log]"
proof -
  have "requests (world (state_of (processMessage env_ok 1 (sys_of [renamed] [johns_log] happy_time)))) =
     [(''john@example.com'', ''Hey, Jonathan Doe it'' @ [CHR 0x27] @ ''s your birthday'')]"
    by code_simp
  then show ?thesis
    by (simp add: johns_log_def)
qed

text \<open>
  Claim C3, amended. The materialiser stores \<open>"Hey, {firstName} {lastName} it's your
  birthday"\<close> rendered from the user at creation. When a record is processed, every
  request posted carries the same template rendered from the first and last name of the
  user as re-read at processing time, and with the lease free, the breaker not open and
  no store fault at least one such request is posted. So the delivered text equals the
  stored message when the two names are unchanged since creation.
\<close>

theorem delivered_text_rendered_at_processing:
  assumes created: "findByKey (id_user u0) BIRTHDAY
             (format_ymd lib (tz_now lib (timezone u0) (clock (world st0)))) (db st0) = None"
    and found: "find (\<lambda>x. id_msg x = messageId) (messageLogs (db st)) = Some r"
    and user: "find (\<lambda>u. id_user u = userId r) (users (db st)) = Some u"
  shows "(\<exists>r0. messageLogs (db (ensureBirthdayMessage lib sc u0 st0)) = messageLogs (db st0) @ [r0] \<and>
            message r0 =
              ''Hey, '' @ firstName u0 @ '' '' @ lastName u0 @ '' it'' @ [CHR 0x27] @ ''s your birthday'') \<and>
         (\<exists>n. requests (world (state_of (processMessage env messageId st))) =
            requests (world st) @
              replicate n (email u,
                ''Hey, '' @ firstName u @ '' '' @ lastName u @ '' it'' @ [CHR 0x27] @ ''s your birthday'')) \<and>
         (unlockedAt (clock (world st)) r \<and>
          \<not> dbFault env messageId AcquireLease \<and> \<not> dbFault env messageId ReRead \<and>
          (\<forall>t. circuitBreakerOpenUntil (svc st) = Some t \<longrightarrow> t \<le> clock (world st)) \<longrightarrow>
            (\<exists>n. requests (world (state_of (processMessage env messageId st))) =
               requests (world st) @
                 replicate (Suc n) (email u,
                   ''Hey, '' @ firstName u @ '' '' @ lastName u @ '' it'' @ [CHR 0x27] @ ''s your birthday''))) \<and>
         (message r =
            ''Hey, '' @ firstName u0 @ '' '' @ lastName u0 @ '' it'' @ [CHR 0x27] @ ''s your birthday'' \<and>
          firstName u = firstName u0 \<and> lastName u = lastName u0 \<longrightarrow>
            (\<exists>n. requests (world (state_of (processMessage env messageId st))) =
               requests (world st) @ replicate n (email u, message r)) \<and>
            (unlockedAt (clock (world st)) r \<and>
             \<not> dbFault env messageId AcquireLease \<and> \<not> dbFault env messageId ReRead \<and>
             (\<forall>t. circuitBreakerOpenUntil (svc st) = Some t \<longrightarrow> t \<le> clock (world st)) \<longrightarrow>
               (\<exists>n. requests (world (state_of (processMessage env messageId st))) =
                  requests (world st) @ replicate (Suc n) (email u, message r))))"
proof -
  let ?text = "''Hey, '' @ firstName u @ '' '' @ lastName u @ '' it'' @ [CHR 0x27] @ ''s your birthday''"
  let ?free = "unlockedAt (clock (world st)) r \<and>
          \<not> dbFault env messageId AcquireLease \<and> \<not> dbFault env messageId ReRead \<and>
          (\<forall>t. circuitBreakerOpenUntil (svc st) = Some t \<longrightarrow> t \<le> clock (world st))"
  have a: "\<exists>r0. messageLogs (db (ensureBirthdayMessage lib sc u0 st0)) = messageLogs (db st0) @ [r0] \<and>
            message r0 =
              ''Hey, '' @ firstName u0 @ '' '' @ lastName u0 @ '' it'' @ [CHR 0x27] @ ''s your birthday''"
    using ensureBirthdayMessage_creates [OF created, of sc] by blast
  have b: "\<exists>n. requests (world (state_of (processMessage env messageId st))) =
            requests (world st) @ replicate n (email u, ?text)"
    using processMessage_requests [OF found user, of env] unfolding birthdayText_literal .
  have c: "\<exists>n. requests (world (state_of (processMessage env messageId st))) =
            requests (world st) @ replicate (Suc n) (email u, ?text)" if ?free
    using processMessage_delivers [OF found user, of env] that unfolding birthdayText_literal
    by blast
  have d: "(\<exists>n. requests (world (state_of (processMessage env messageId st))) =
               requests (world st) @ replicate n (email u, message r)) \<and>
           (?free \<longrightarrow>
               (\<exists>n. requests (world (state_of (processMessage env messageId st))) =
                  requests (world st) @ replicate (Suc n) (email u, message r)))"
    if "message r =
            ''Hey, '' @ firstName u0 @ '' '' @ lastName u0 @ '' it'' @ [CHR 0x27] @ ''s your birthday'' \<and>
          firstName u = firstName u0 \<and> lastName u = lastName u0"
  proof -
    have "message r = ?text"
      using that by simp
    then show ?thesis
      using b c by simp
  qed
  from a b c d show ?thesis
    by blast
qed

theorem delivered_text_rendered_at_processing_witness:
  "(\<exists>r0. messageLogs (db (ensureBirthdayMessage may_15 default_send_at john
             (sys_of [john] [] 1778824800000))) = [r0] \<and>
          message r0 = message johns_log) \<and>
   (\<exists>n. requests (world (state_of (processMessage env_ok 1 (sys_of [john] [johns_log] happy_time)))) =
          replicate (Suc n) (''john@example.com'', message johns_log))"
proof -
  let ?before = "sys_of [john] [] 1778824800000"
  let ?later = "sys_of [john] [johns_log] happy_time"
  have created: "findByKey (id_user john) BIRTHDAY
      (format_ymd may_15 (tz_now may_15 (timezone john) (clock (world ?before)))) (db ?before) = None"
    by (simp add: findByKey_def sys_of_def)
  have found: "find (\<lambda>x. id_msg x = 1) (messageLogs (db ?later)) = Some johns_log"
    by (simp add: sys_of_def johns_log_def)
  have user: "find (\<lambda>u. id_user u = userId johns_log) (users (db ?later)) = Some john"
    by (simp add: sys_of_def johns_log_def john_def)
  have same: "message johns_log =
      ''Hey, '' @ firstName john @ '' '' @ lastName john @ '' it'' @ [CHR 0x27] @ ''s your birthday''"
    "email john = ''john@example.com''"
    by (simp_all add: johns_log_def john_def)
  have empty: "messageLogs (db ?before) = []" "requests (world ?later) = []"
    by (simp_all add: sys_of_def)
  have free: "unlockedAt (clock (world ?later)) johns_log"
    "\<not> dbFault env_ok 1 AcquireLease" "\<not> dbFault env_ok 1 ReRead"
    "\<forall>t. circuitBreakerOpenUntil (svc ?later) = Some t \<longrightarrow> t \<le> clock (world ?later)"
    by (simp_all add: unlockedAt_def johns_log_def env_ok_def env_of_def no_fault_def sys_of_def
        newEmailService_def)
  from delivered_text_rendered_at_processing [OF created found user, of default_send_at env_ok]
    free
  show ?thesis
    unfolding same [symmetric] empty by simp
qed

subsection \<open>The materialiser\<close>

lemma hasKey_msg_key: "hasKey uid ty day r \<longleftrightarrow> msg_key r = (uid, ty, day)"
  by (simp add: hasKey_def msg_key_def)

lemma find_None_list_ex: "find P xs = None \<longleftrightarrow> \<not> list_ex P xs"
  by (induction xs) simp_all

lemma ensure_present:
  assumes "list_ex (hasKey (id_user u) BIRTHDAY (todayOf lib u (clock (world st)))) (messageLogs (db st))"
  shows "ensureBirthdayMessage lib sc u st = st"
proof -
  have "findByKey (id_user u) BIRTHDAY (todayOf lib u (clock (world st))) (db st) \<noteq> None"
    using assms by (simp add: findByKey_def find_None_list_ex)
  then show ?thesis
    by (auto simp: ensureBirthdayMessage_def todayOf_def Let_def)
qed

lemma ensure_absent:
  assumes "\<not> list_ex (hasKey (id_user u) BIRTHDAY (todayOf lib u (clock (world st)))) (messageLogs (db st))"
  shows "\<exists>r. hasKey (id_user u) BIRTHDAY (todayOf lib u (clock (world st))) r \<and>
           db (ensureBirthdayMessage lib sc u st) = (db st)\<lparr>messageLogs := messageLogs (db st) @ [r]\<rparr> \<and>
           clock (world (ensureBirthdayMessage lib sc u st)) = clock (world st)"
proof -
  define day where "day = todayOf lib u (clock (world st))"
  define r where "r =
     \<lparr>id_msg = uuids (world st), userId = id_user u, messageType = BIRTHDAY,
      message = ''Hey, '' @ (firstName u @ '' '' @ lastName u) @ '' it'' @ [CHR 0x27] @ ''s your birthday'',
      status = PENDING, scheduledDate = day,
      scheduledAt = getScheduledTime lib sc (timezone u) day,
      sentAt = None, retryCount = 0, errorMessage = None, lockId = None, lockedUntil = None,
      createdAt = clock (world st)\<rparr>"
  have none: "findByKey (id_user u) BIRTHDAY day (db st) = None"
    using assms by (simp add: findByKey_def find_None_list_ex day_def)
  have cr: "createMessageLog (id_user u) BIRTHDAY
      (''Hey, '' @ (firstName u @ '' '' @ lastName u) @ '' it'' @ [CHR 0x27] @ ''s your birthday'')
      day (getScheduledTime lib sc (timezone u) day) st =
      Some (st\<lparr>world := (world st)\<lparr>uuids := Suc (uuids (world st))\<rparr>,
               db := (db st)\<lparr>messageLogs := messageLogs (db st) @ [r]\<rparr>\<rparr>)"
    using assms by (simp add: createMessageLog_def uuidv4_def r_def day_def)
  have res: "ensureBirthdayMessage lib sc u st =
      st\<lparr>world := (world st)\<lparr>uuids := Suc (uuids (world st))\<rparr>,
         db := (db st)\<lparr>messageLogs := messageLogs (db st) @ [r]\<rparr>\<rparr>"
    using none cr by (simp add: ensureBirthdayMessage_def Let_def day_def todayOf_def)
  have "hasKey (id_user u) BIRTHDAY day r"
    by (simp add: hasKey_def r_def)
  then show ?thesis
    unfolding res day_def [symmetric] by (intro exI [of _ r]) simp
qed

lemma ensure_frame:
  "users (db (ensureBirthdayMessage lib sc u st)) = users (db st)"
  "clock (world (ensureBirthdayMessage lib sc u st)) = clock (world st)"
  "\<exists>new. messageLogs (db (ensureBirthdayMessage lib sc u st)) = messageLogs (db st) @ new"
proof -
  consider (p) "list_ex (hasKey (id_user u) BIRTHDAY (todayOf lib u (clock (world st)))) (messageLogs (db st))"
    | (a) "\<not> list_ex (hasKey (id_user u) BIRTHDAY (todayOf lib u (clock (world st)))) (messageLogs (db st))"
    by blast
  then have "users (db (ensureBirthdayMessage lib sc u st)) = users (db st) \<and>
    clock (world (ensureBirthdayMessage lib sc u st)) = clock (world st) \<and>
    (\<exists>new. messageLogs (db (ensureBirthdayMessage lib sc u st)) = messageLogs (db st) @ new)"
  proof cases
    case p
    then show ?thesis by (simp add: ensure_present)
  next
    case a
    from ensure_absent [OF a, of sc] obtain r where
      "db (ensureBirthdayMessage lib sc u st) = (db st)\<lparr>messageLogs := messageLogs (db st) @ [r]\<rparr>"
      "clock (world (ensureBirthdayMessage lib sc u st)) = clock (world st)"
      by blast
    then show ?thesis by simp
  qed
  then show "users (db (ensureBirthdayMessage lib sc u st)) = users (db st)"
    "clock (world (ensureBirthdayMessage lib sc u st)) = clock (world st)"
    "\<exists>new. messageLogs (db (ensureBirthdayMessage lib sc u st)) = messageLogs (db st) @ new"
    by blast+
qed

lemma ensure_has_key:
  "list_ex (hasKey (id_user u) BIRTHDAY (todayOf lib u (clock (world st))))
     (messageLogs (db (ensureBirthdayMessage lib sc u st)))"
proof (cases "list_ex (hasKey (id_user u) BIRTHDAY (todayOf lib u (clock (world st)))) (messageLogs (db st))")
  case True
  then show ?thesis by (simp add: ensure_present)
next
  case False
  from ensure_absent [OF False, of sc] show ?thesis
    by (auto simp: list_ex_iff)
qed

lemma ensure_distinct:
  assumes "distinct (map msg_key (messageLogs (db st)))"
  shows "distinct (map msg_key (messageLogs (db (ensureBirthdayMessage lib sc u st))))"
proof (cases "list_ex (hasKey (id_user u) BIRTHDAY (todayOf lib u (clock (world st)))) (messageLogs (db st))")
  case True
  then show ?thesis using assms by (simp add: ensure_present)
next
  case False
  from ensure_absent [OF False, of sc] obtain r where
    k: "hasKey (id_user u) BIRTHDAY (todayOf lib u (clock (world st))) r"
    and d: "db (ensureBirthdayMessage lib sc u st) = (db st)\<lparr>messageLogs := messageLogs (db st) @ [r]\<rparr>"
    by blast
  have "msg_key r \<notin> set (map msg_key (messageLogs (db st)))"
    using False k by (auto simp: list_ex_iff hasKey_msg_key)
  then show ?thesis
    using assms d by simp
qed


lemma list_ex_append_left: "list_ex P xs \<Longrightarrow> list_ex P (xs @ ys)"
  by (induction xs) auto

lemma ensureEach_frame:
  "users (db (ensureEach lib sc us st)) = users (db st) \<and>
   clock (world (ensureEach lib sc us st)) = clock (world st) \<and>
   (\<exists>new. messageLogs (db (ensureEach lib sc us st)) = messageLogs (db st) @ new)"
proof (induction us arbitrary: st)
  case Nil
  then show ?case by simp
next
  case (Cons u us)
  define st' where "st' = (if isBirthdayToday lib (clock (world st)) (birthday u) (timezone u)
        then ensureBirthdayMessage lib sc u st else st)"
  have step: "users (db st') = users (db st)" "clock (world st') = clock (world st)"
    "\<exists>new. messageLogs (db st') = messageLogs (db st) @ new"
    using ensure_frame [of lib sc u st] by (auto simp: st'_def)
  from Cons.IH [of st'] step show ?case
    unfolding ensureEach.simps st'_def [symmetric] by (metis append.assoc)
qed

lemma ensureEach_keeps_key:
  assumes "list_ex P (messageLogs (db st))"
  shows "list_ex P (messageLogs (db (ensureEach lib sc us st)))"
  using ensureEach_frame [of lib sc us st] assms by (metis list_ex_append_left)

lemma ensureEach_has_keys:
  assumes "u \<in> set us" "isBirthdayToday lib (clock (world st)) (birthday u) (timezone u)"
  shows "list_ex (hasKey (id_user u) BIRTHDAY (todayOf lib u (clock (world st))))
           (messageLogs (db (ensureEach lib sc us st)))"
  using assms
proof (induction us arbitrary: st)
  case Nil
  then show ?case by simp
next
  case (Cons v us)
  define st' where "st' = (if isBirthdayToday lib (clock (world st)) (birthday v) (timezone v)
        then ensureBirthdayMessage lib sc v st else st)"
  have ck: "clock (world st') = clock (world st)"
    using ensure_frame(2) [of lib sc v st] by (simp add: st'_def)
  show ?case
  proof (cases "u = v")
    case True
    then have "st' = ensureBirthdayMessage lib sc u st"
      using Cons.prems by (simp add: st'_def)
    then have "list_ex (hasKey (id_user u) BIRTHDAY (todayOf lib u (clock (world st))))
        (messageLogs (db st'))"
      using ensure_has_key [of u lib st sc] by simp
    then show ?thesis
      unfolding ensureEach.simps st'_def [symmetric] by (rule ensureEach_keeps_key)
  next
    case False
    then have "u \<in> set us"
      using Cons.prems by simp
    moreover have "isBirthdayToday lib (clock (world st')) (birthday u) (timezone u)"
      using Cons.prems ck by simp
    ultimately show ?thesis
      using Cons.IH [of st'] unfolding ensureEach.simps st'_def [symmetric] ck by simp
  qed
qed

lemma ensureEach_noop:
  assumes "\<And>u. u \<in> set us \<Longrightarrow> isBirthdayToday lib (clock (world st)) (birthday u) (timezone u) \<Longrightarrow>
             list_ex (hasKey (id_user u) BIRTHDAY (todayOf lib u (clock (world st))))
               (messageLogs (db st))"
  shows "ensureEach lib sc us st = st"
  using assms
proof (induction us)
  case Nil
  then show ?case by simp
next
  case (Cons v us)
  have "(if isBirthdayToday lib (clock (world st)) (birthday v) (timezone v)
        then ensureBirthdayMessage lib sc v st else st) = st"
    using Cons.prems [of v] by (simp add: ensure_present)
  then show ?case
    using Cons.IH Cons.prems by simp
qed

lemma ensureEach_distinct:
  assumes "distinct (map msg_key (messageLogs (db st)))"
  shows "distinct (map msg_key (messageLogs (db (ensureEach lib sc us st))))"
  using assms
proof (induction us arbitrary: st)
  case Nil
  then show ?case by simp
next
  case (Cons v us)
  have "distinct (map msg_key (messageLogs (db
      (if isBirthdayToday lib (clock (world st)) (birthday v) (timezone v)
        then ensureBirthdayMessage lib sc v st else st))))"
    using Cons.prems ensure_distinct [of st lib sc v] by simp
  then show ?case
    using Cons.IH by simp
qed

lemma civilDay_birthday:
  assumes "civilDay lib tz t = civilDay lib tz t'"
  shows "isBirthdayToday lib t bday tz = isBirthdayToday lib t' bday tz"
  using assms by (simp add: civilDay_def isBirthdayToday_def Let_def)

text \<open>A further run on the same civil day, from any state with the store of the first run.\<close>

lemma rerun_same_day:
  assumes same_day: "\<And>u. u \<in> set (users (db st)) \<Longrightarrow> isActive u \<Longrightarrow>
        civilDay lib (timezone u) t = civilDay lib (timezone u) t1"
    and store: "db s = db (materialiseAt lib sc t1 st)"
  shows "db (materialiseAt lib sc t s) = db (materialiseAt lib sc t1 st)"
proof -
  define first where "first = st\<lparr>world := (world st)\<lparr>clock := t1\<rparr>\<rparr>"
  define again where "again = s\<lparr>world := (world s)\<lparr>clock := t\<rparr>\<rparr>"
  define actives where "actives = filter isActive (users (db st))"
  have m1: "materialiseAt lib sc t1 st = ensureEach lib sc actives first"
    by (simp add: materialiseAt_def createBirthdayMessages_def first_def actives_def)
  have us: "users (db s) = users (db st)"
    using store ensureEach_frame [of lib sc actives first] by (simp add: m1 first_def)
  have m2: "materialiseAt lib sc t s = ensureEach lib sc actives again"
    by (simp add: materialiseAt_def createBirthdayMessages_def again_def actives_def us)
  have "ensureEach lib sc actives again = again"
  proof (rule ensureEach_noop)
    fix u
    assume u: "u \<in> set actives"
      and b: "isBirthdayToday lib (clock (world again)) (birthday u) (timezone u)"
    have cd: "civilDay lib (timezone u) t = civilDay lib (timezone u) t1"
      using u same_day by (simp add: actives_def)
    have "isBirthdayToday lib (clock (world first)) (birthday u) (timezone u)"
      using b civilDay_birthday [OF cd] by (simp add: again_def first_def)
    from ensureEach_has_keys [OF u this, of sc]
    have "list_ex (hasKey (id_user u) BIRTHDAY (todayOf lib u t1))
        (messageLogs (db (materialiseAt lib sc t1 st)))"
      by (simp add: m1 first_def)
    moreover have "todayOf lib u t = todayOf lib u t1"
      using cd by (simp add: civilDay_def todayOf_def)
    ultimately show "list_ex (hasKey (id_user u) BIRTHDAY (todayOf lib u (clock (world again))))
        (messageLogs (db again))"
      using store by (simp add: again_def)
  qed
  then show ?thesis
    using store by (simp add: m2 again_def)
qed

text \<open>
  Claim C4. After one run of the materialiser, any number of further runs at instants
  that fall, for every active user, on the same civil day in the user's zone leave the
  store exactly as the first run left it: no record is created and none is modified. A
  run keeps the keys \<open>(userId, messageType, scheduledDate)\<close> of the records pairwise
  distinct, so at most one record exists for a key.
\<close>

theorem materialise_idempotent:
  assumes same_day: "\<forall>t \<in> set ts. \<forall>u \<in> set (users (db st)). isActive u \<longrightarrow>
        civilDay lib (timezone u) t = civilDay lib (timezone u) t1"
  shows "db (fold (materialiseAt lib sc) ts (materialiseAt lib sc t1 st)) =
           db (materialiseAt lib sc t1 st) \<and>
         (distinct (map msg_key (messageLogs (db st))) \<longrightarrow>
            distinct (map msg_key (messageLogs (db (materialiseAt lib sc t1 st)))))"
proof
  have "db s = db (materialiseAt lib sc t1 st) \<Longrightarrow>
      db (fold (materialiseAt lib sc) ts s) = db (materialiseAt lib sc t1 st)" for s
    using same_day
  proof (induction ts arbitrary: s)
    case Nil
    then show ?case by simp
  next
    case (Cons t ts)
    have "db (materialiseAt lib sc t s) = db (materialiseAt lib sc t1 st)"
      using Cons.prems by (intro rerun_same_day) simp_all
    then show ?case
      using Cons.IH [of "materialiseAt lib sc t s"] Cons.prems by simp
  qed
  then show "db (fold (materialiseAt lib sc) ts (materialiseAt lib sc t1 st)) =
           db (materialiseAt lib sc t1 st)"
    by simp
  show "distinct (map msg_key (messageLogs (db st))) \<longrightarrow>
            distinct (map msg_key (messageLogs (db (materialiseAt lib sc t1 st))))"
    using ensureEach_distinct [of "st\<lparr>world := (world st)\<lparr>clock := t1\<rparr>\<rparr>" lib sc]
    by (simp add: materialiseAt_def createBirthdayMessages_def)
qed

theorem materialise_idempotent_witness:
  "db (fold (materialiseAt may_15 default_send_at) [early + 300000, early + 600000]
         (materialiseAt may_15 default_send_at early (sys_of [john, jane] [] early))) =
     db (materialiseAt may_15 default_send_at early (sys_of [john, jane] [] early)) \<and>
   distinct (map msg_key (messageLogs (db
     (materialiseAt may_15 default_send_at early (sys_of [john, jane] [] early))))) \<and>
   map msg_key (messageLogs (db
     (materialiseAt may_15 default_send_at early (sys_of [john, jane] [] early)))) =
     [(7, BIRTHDAY, ''2026-05-15'')]"
proof -
  have same_day: "\<forall>t \<in> set [early + 300000, early + 600000].
      \<forall>u \<in> set (users (db (sys_of [john, jane] [] early))). isActive u \<longrightarrow>
        civilDay may_15 (timezone u) t = civilDay may_15 (timezone u) early"
    by (simp add: civilDay_def may_15_def fixed_day_lib_def)
  have empty: "distinct (map msg_key (messageLogs (db (sys_of [john, jane] [] early))))"
    by (simp add: sys_of_def)
  have one: "map msg_key (messageLogs (db
     (materialiseAt may_15 default_send_at early (sys_of [john, jane] [] early)))) =
     [(7, BIRTHDAY, ''2026-05-15'')]"
    by code_simp
  from materialise_idempotent [OF same_day, of default_send_at] empty one
  show ?thesis
    by simp
qed

subsection \<open>Records already sent\<close>

text \<open>
  Claim C1 on the code. \<^verbatim>\<open>processMessage\<close> has no guard on the status: given the id
  of a record that is already Sent and unlocked, it takes the lease, posts the message
  again and overwrites \<open>sentAt\<close>. The ids it is given were selected earlier, so this
  happens when the record was sent in between: below, the recovery pass has selected
  the record, a processor tick sends it, and the recovery loop then sends it a second
  time.
\<close>

theorem sent_record_processed_again:
  "processMessage env_ok 1 (sys_of [john] [sent_log] (happy_time + 60000)) =
     Done \<lparr>db = \<lparr>users = [john],
                  messageLogs = [sent_log\<lparr>sentAt := Some (happy_time + 60020)\<rparr>]\<rparr>,
           svc = updateMetrics defaultConfig (happy_time + 60020) True None newEmailService,
           world = \<lparr>clock = happy_time + 60020,
                    requests = [(''john@example.com'', message johns_log)], uuids = 101\<rparr>\<rparr> \<and>
   length (requests (world (state_of
     (processEach env_ok (map id_msg (findUnsent happy_time (db (sys_of [john] [johns_log] happy_time))))
        (state_of (processPendingMessages env_ok (sys_of [john] [johns_log] happy_time))))))) = 2"
  by code_simp

end
